theory Spec2Isabelle
  imports Main
begin

unbundle bit_operations_syntax

section \<open>JavaScript strings\<close>

text \<open>
  A JavaScript string is a sequence of UTF-16 code units; the token normaliser of
  \<^verbatim>\<open>otp.ts\<close> works on code units above the Latin-1 range (the full-width digits
  U+FF10 to U+FF19), so strings are modelled as lists of code units, each a natural
  number below 65536.  \<open>js\<close> turns an ASCII literal into such a string.
\<close>

type_synonym jstring = "nat list"

definition js :: "string \<Rightarrow> jstring" where
  "js s = map of_char s"

text \<open>
  The code units that \<^verbatim>\<open>String.prototype.trim\<close> strips and that the regular
  expression class \<^verbatim>\<open>\s\<close> matches (ECMAScript WhiteSpace and LineTerminator): tab, line
  feed, vertical tab, form feed, carriage return, space, U+00A0, U+1680, U+2000 to U+200A,
  U+2028, U+2029, U+202F, U+205F, U+3000 and U+FEFF.
\<close>

definition is_space :: "nat \<Rightarrow> bool" where
  "is_space c =
     (c \<in> {9, 10, 11, 12, 13, 32, 160, 5760, 8232, 8233, 8239, 8287, 12288, 65279}
      \<or> (8192 \<le> c \<and> c \<le> 8202))"

definition js_trim :: "jstring \<Rightarrow> jstring" where
  "js_trim s = rev (dropWhile is_space (rev (dropWhile is_space s)))"

text \<open>
  \<^verbatim>\<open>String.prototype.toUpperCase\<close> maps the string code point by code point (a
  surrogate pair is one code point, an unpaired surrogate stays as it is) with the
  locale-independent full case mapping of the Unicode standard, which can lengthen the
  string (U+00DF becomes \<^verbatim>\<open>SS\<close>).  The mapping is a table of the JavaScript runtime,
  not of the repository; it is written out here for Unicode 14.0: \<open>special_upper\<close> lists
  the code points with a mapping of more than one code point, and an entry
  \<open>(lo, hi, step, target)\<close> of \<open>upper_ranges\<close> maps the code points \<open>lo\<close>, \<open>lo + step\<close>,
  ... up to \<open>hi\<close> to \<open>target\<close>, \<open>target + step\<close>, ...  The ASCII letters are mapped by
  the rule \<open>c - 32\<close>.
\<close>

fun decode_utf16 :: "jstring \<Rightarrow> nat list" where
  "decode_utf16 (h # l # xs) =
     (if 55296 \<le> h \<and> h \<le> 56319 \<and> 56320 \<le> l \<and> l \<le> 57343
      then (65536 + (h - 55296) * 1024 + (l - 56320)) # decode_utf16 xs
      else h # decode_utf16 (l # xs))"
| "decode_utf16 [x] = [x]"
| "decode_utf16 [] = []"

definition encode_utf16 :: "nat \<Rightarrow> jstring" where
  "encode_utf16 cp =
     (if cp < 65536 then [cp]
      else [55296 + (cp - 65536) div 1024, 56320 + (cp - 65536) mod 1024])"

definition special_upper :: "(nat \<times> nat list) list" where
  "special_upper = [
    (223, [83, 83]), (329, [700, 78]), (496, [74, 780]), (912, [921, 776, 769]),
    (944, [933, 776, 769]), (1415, [1333, 1362]), (7830, [72, 817]), (7831, [84, 776]),
    (7832, [87, 778]), (7833, [89, 778]), (7834, [65, 702]), (8016, [933, 787]),
    (8018, [933, 787, 768]), (8020, [933, 787, 769]), (8022, [933, 787, 834]), (8064, [7944, 921]),
    (8065, [7945, 921]), (8066, [7946, 921]), (8067, [7947, 921]), (8068, [7948, 921]),
    (8069, [7949, 921]), (8070, [7950, 921]), (8071, [7951, 921]), (8072, [7944, 921]),
    (8073, [7945, 921]), (8074, [7946, 921]), (8075, [7947, 921]), (8076, [7948, 921]),
    (8077, [7949, 921]), (8078, [7950, 921]), (8079, [7951, 921]), (8080, [7976, 921]),
    (8081, [7977, 921]), (8082, [7978, 921]), (8083, [7979, 921]), (8084, [7980, 921]),
    (8085, [7981, 921]), (8086, [7982, 921]), (8087, [7983, 921]), (8088, [7976, 921]),
    (8089, [7977, 921]), (8090, [7978, 921]), (8091, [7979, 921]), (8092, [7980, 921]),
    (8093, [7981, 921]), (8094, [7982, 921]), (8095, [7983, 921]), (8096, [8040, 921]),
    (8097, [8041, 921]), (8098, [8042, 921]), (8099, [8043, 921]), (8100, [8044, 921]),
    (8101, [8045, 921]), (8102, [8046, 921]), (8103, [8047, 921]), (8104, [8040, 921]),
    (8105, [8041, 921]), (8106, [8042, 921]), (8107, [8043, 921]), (8108, [8044, 921]),
    (8109, [8045, 921]), (8110, [8046, 921]), (8111, [8047, 921]), (8114, [8122, 921]),
    (8115, [913, 921]), (8116, [902, 921]), (8118, [913, 834]), (8119, [913, 834, 921]),
    (8124, [913, 921]), (8130, [8138, 921]), (8131, [919, 921]), (8132, [905, 921]),
    (8134, [919, 834]), (8135, [919, 834, 921]), (8140, [919, 921]), (8146, [921, 776, 768]),
    (8147, [921, 776, 769]), (8150, [921, 834]), (8151, [921, 776, 834]), (8162, [933, 776, 768]),
    (8163, [933, 776, 769]), (8164, [929, 787]), (8166, [933, 834]), (8167, [933, 776, 834]),
    (8178, [8186, 921]), (8179, [937, 921]), (8180, [911, 921]), (8182, [937, 834]),
    (8183, [937, 834, 921]), (8188, [937, 921]), (64256, [70, 70]), (64257, [70, 73]),
    (64258, [70, 76]), (64259, [70, 70, 73]), (64260, [70, 70, 76]), (64261, [83, 84]),
    (64262, [83, 84]), (64275, [1348, 1350]), (64276, [1348, 1333]), (64277, [1348, 1339]),
    (64278, [1358, 1350]), (64279, [1348, 1341])]"

definition upper_ranges :: "(nat \<times> nat \<times> nat \<times> nat) list" where
  "upper_ranges = [
    (181, 181, 1, 924), (224, 246, 1, 192), (248, 254, 1, 216), (255, 255, 1, 376),
    (257, 303, 2, 256), (305, 305, 1, 73), (307, 311, 2, 306), (314, 328, 2, 313),
    (331, 375, 2, 330), (378, 382, 2, 377), (383, 383, 1, 83), (384, 384, 1, 579),
    (387, 389, 2, 386), (392, 392, 1, 391), (396, 396, 1, 395), (402, 402, 1, 401),
    (405, 405, 1, 502), (409, 409, 1, 408), (410, 410, 1, 573), (414, 414, 1, 544),
    (417, 421, 2, 416), (424, 424, 1, 423), (429, 429, 1, 428), (432, 432, 1, 431),
    (436, 438, 2, 435), (441, 441, 1, 440), (445, 445, 1, 444), (447, 447, 1, 503),
    (453, 453, 1, 452), (454, 454, 1, 452), (456, 456, 1, 455), (457, 457, 1, 455),
    (459, 459, 1, 458), (460, 460, 1, 458), (462, 476, 2, 461), (477, 477, 1, 398),
    (479, 495, 2, 478), (498, 498, 1, 497), (499, 499, 1, 497), (501, 501, 1, 500),
    (505, 543, 2, 504), (547, 563, 2, 546), (572, 572, 1, 571), (575, 576, 1, 11390),
    (578, 578, 1, 577), (583, 591, 2, 582), (592, 592, 1, 11375), (593, 593, 1, 11373),
    (594, 594, 1, 11376), (595, 595, 1, 385), (596, 596, 1, 390), (598, 599, 1, 393),
    (601, 601, 1, 399), (603, 603, 1, 400), (604, 604, 1, 42923), (608, 608, 1, 403),
    (609, 609, 1, 42924), (611, 611, 1, 404), (613, 613, 1, 42893), (614, 614, 1, 42922),
    (616, 616, 1, 407), (617, 617, 1, 406), (618, 618, 1, 42926), (619, 619, 1, 11362),
    (620, 620, 1, 42925), (623, 623, 1, 412), (625, 625, 1, 11374), (626, 626, 1, 413),
    (629, 629, 1, 415), (637, 637, 1, 11364), (640, 640, 1, 422), (642, 642, 1, 42949),
    (643, 643, 1, 425), (647, 647, 1, 42929), (648, 648, 1, 430), (649, 649, 1, 580),
    (650, 651, 1, 433), (652, 652, 1, 581), (658, 658, 1, 439), (669, 669, 1, 42930),
    (670, 670, 1, 42928), (837, 837, 1, 921), (881, 883, 2, 880), (887, 887, 1, 886),
    (891, 893, 1, 1021), (940, 940, 1, 902), (941, 943, 1, 904), (945, 961, 1, 913),
    (962, 962, 1, 931), (963, 971, 1, 931), (972, 972, 1, 908), (973, 974, 1, 910),
    (976, 976, 1, 914), (977, 977, 1, 920), (981, 981, 1, 934), (982, 982, 1, 928),
    (983, 983, 1, 975), (985, 1007, 2, 984), (1008, 1008, 1, 922), (1009, 1009, 1, 929),
    (1010, 1010, 1, 1017), (1011, 1011, 1, 895), (1013, 1013, 1, 917), (1016, 1016, 1, 1015),
    (1019, 1019, 1, 1018), (1072, 1103, 1, 1040), (1104, 1119, 1, 1024), (1121, 1153, 2, 1120),
    (1163, 1215, 2, 1162), (1218, 1230, 2, 1217), (1231, 1231, 1, 1216), (1233, 1327, 2, 1232),
    (1377, 1414, 1, 1329), (4304, 4346, 1, 7312), (4349, 4351, 1, 7357), (5112, 5117, 1, 5104),
    (7296, 7296, 1, 1042), (7297, 7297, 1, 1044), (7298, 7298, 1, 1054), (7299, 7300, 1, 1057),
    (7301, 7301, 1, 1058), (7302, 7302, 1, 1066), (7303, 7303, 1, 1122), (7304, 7304, 1, 42570),
    (7545, 7545, 1, 42877), (7549, 7549, 1, 11363), (7566, 7566, 1, 42950), (7681, 7829, 2, 7680),
    (7835, 7835, 1, 7776), (7841, 7935, 2, 7840), (7936, 7943, 1, 7944), (7952, 7957, 1, 7960),
    (7968, 7975, 1, 7976), (7984, 7991, 1, 7992), (8000, 8005, 1, 8008), (8017, 8023, 2, 8025),
    (8032, 8039, 1, 8040), (8048, 8049, 1, 8122), (8050, 8053, 1, 8136), (8054, 8055, 1, 8154),
    (8056, 8057, 1, 8184), (8058, 8059, 1, 8170), (8060, 8061, 1, 8186), (8112, 8113, 1, 8120),
    (8126, 8126, 1, 921), (8144, 8145, 1, 8152), (8160, 8161, 1, 8168), (8165, 8165, 1, 8172),
    (8526, 8526, 1, 8498), (8560, 8575, 1, 8544), (8580, 8580, 1, 8579), (9424, 9449, 1, 9398),
    (11312, 11359, 1, 11264), (11361, 11361, 1, 11360), (11365, 11365, 1, 570), (11366, 11366, 1, 574),
    (11368, 11372, 2, 11367), (11379, 11379, 1, 11378), (11382, 11382, 1, 11381), (11393, 11491, 2, 11392),
    (11500, 11502, 2, 11499), (11507, 11507, 1, 11506), (11520, 11557, 1, 4256), (11559, 11559, 1, 4295),
    (11565, 11565, 1, 4301), (42561, 42605, 2, 42560), (42625, 42651, 2, 42624), (42787, 42799, 2, 42786),
    (42803, 42863, 2, 42802), (42874, 42876, 2, 42873), (42879, 42887, 2, 42878), (42892, 42892, 1, 42891),
    (42897, 42899, 2, 42896), (42900, 42900, 1, 42948), (42903, 42921, 2, 42902), (42933, 42947, 2, 42932),
    (42952, 42954, 2, 42951), (42961, 42961, 1, 42960), (42967, 42969, 2, 42966), (42998, 42998, 1, 42997),
    (43859, 43859, 1, 42931), (43888, 43967, 1, 5024), (65345, 65370, 1, 65313), (66600, 66639, 1, 66560),
    (66776, 66811, 1, 66736), (66967, 66977, 1, 66928), (66979, 66993, 1, 66940), (66995, 67001, 1, 66956),
    (67003, 67004, 1, 66964), (68800, 68850, 1, 68736), (71872, 71903, 1, 71840), (93792, 93823, 1, 93760),
    (125218, 125251, 1, 125184)]"

definition in_upper_range :: "nat \<Rightarrow> nat \<times> nat \<times> nat \<times> nat \<Rightarrow> bool" where
  "in_upper_range cp r =
     (fst r \<le> cp \<and> cp \<le> fst (snd r) \<and> (cp - fst r) mod fst (snd (snd r)) = 0)"

definition upper_cp :: "nat \<Rightarrow> nat list" where
  "upper_cp cp =
     (if cp < 128 then [if 97 \<le> cp \<and> cp \<le> 122 then cp - 32 else cp]
      else (case map_of special_upper cp of
              Some v \<Rightarrow> v
            | None \<Rightarrow>
                (case find (in_upper_range cp) upper_ranges of
                   Some r \<Rightarrow> [snd (snd (snd r)) + (cp - fst r)]
                 | None \<Rightarrow> [cp])))"

definition toUpperCase :: "jstring \<Rightarrow> jstring" where
  "toUpperCase s = concat (map encode_utf16 (concat (map upper_cp (decode_utf16 s))))"

text \<open>Truthiness of a value of type \<^verbatim>\<open>string | undefined\<close>: defined and not empty.\<close>

fun truthy :: "jstring option \<Rightarrow> bool" where
  "truthy None = False"
| "truthy (Some s) = (s \<noteq> [])"

section \<open>The environment store (src/framework/env/env.ts)\<close>

text \<open>
  \<^verbatim>\<open>Env.cache\<close> is a copy of \<^verbatim>\<open>process.env\<close> taken once, when the module is
  loaded (after \<^verbatim>\<open>dotenv.config()\<close>); every later lookup reads the copy.  The running
  process is modelled by both maps: the live environment and the snapshot.
\<close>

type_synonym environ = "jstring \<rightharpoonup> jstring"

record runtime =
  process_env :: environ
  cache :: environ

definition load_Env :: "environ \<Rightarrow> runtime" where
  "load_Env pe = \<lparr>process_env = pe, cache = pe\<rparr>"

text \<open>An assignment \<^verbatim>\<open>process.env[k] = v\<close> made while the program runs.\<close>

definition setenv :: "jstring \<Rightarrow> jstring \<Rightarrow> runtime \<Rightarrow> runtime" where
  "setenv k v rt = rt\<lparr>process_env := (process_env rt)(k \<mapsto> v)\<rparr>"

text \<open>
  \<^verbatim>\<open>Env.cache\<close> is a plain object: the lookup \<^verbatim>\<open>this.cache[key]\<close> finds the
  variable when it is set, and otherwise, for the name of a property of
  \<^verbatim>\<open>Object.prototype\<close>, the inherited function or object, which is not a string.
\<close>

datatype jsvalue = Undefined | Str jstring | NonString

definition object_prototype_keys :: "jstring list" where
  "object_prototype_keys =
     [js ''constructor'', js ''__defineGetter__'', js ''__defineSetter__'',
      js ''hasOwnProperty'', js ''__lookupGetter__'', js ''__lookupSetter__'',
      js ''isPrototypeOf'', js ''propertyIsEnumerable'', js ''toString'', js ''valueOf'',
      js ''__proto__'', js ''toLocaleString'']"

definition cache_lookup :: "environ \<Rightarrow> jstring \<Rightarrow> jsvalue" where
  "cache_lookup c key =
     (case c key of
        Some s \<Rightarrow> Str s
      | None \<Rightarrow> if key \<in> set object_prototype_keys then NonString else Undefined)"

text \<open>
  The errors the two classes throw.  The source throws plain \<^verbatim>\<open>Error\<close> objects and
  tells them apart by message only; each constructor stands for one message:
  \<^item> \<open>MissingEnvironmentVariable k\<close>: \<^verbatim>\<open>Missing environment variable: k\<close> (env.ts);
  \<^item> \<open>NoUriOrEnvKey\<close>: \<^verbatim>\<open>OTP: No URI or envKey provided.\<close>;
  \<^item> \<open>InvalidOtpauthUri src e\<close>: \<^verbatim>\<open>OTP: Invalid otpauth URI (src): \<close> followed by the
    message of the error \<open>e\<close> the URI parser threw;
  \<^item> \<open>NotTotpConfiguration src\<close>: \<^verbatim>\<open>OTP: The provided URI (src) is not a TOTP
    configuration.\<close>;
  \<^item> \<open>TrimIsNotAFunction\<close>: the \<^verbatim>\<open>TypeError\<close> of the runtime when \<^verbatim>\<open>raw.trim()\<close>
    is called on a value that is not a string.
\<close>

datatype parse_error = MalformedConfigurationError | InvalidSecretError

datatype error =
    MissingEnvironmentVariable jstring
  | NoUriOrEnvKey
  | InvalidOtpauthUri jstring parse_error
  | NotTotpConfiguration jstring
  | TrimIsNotAFunction

text \<open>
  \<^verbatim>\<open>Env.get\<close> for string options (\<open>required\<close>, \<open>default\<close>, \<open>trim\<close>).  The check for a
  missing or empty value comes before the trimming, as in the source.  The result is
  the value found (trimmed when it is a string and \<open>trim\<close> is set) or the default of an
  optional variable.  The \<open>parser\<close> branch belongs to the typed getters, which the OTP
  engine does not call.
\<close>

definition Env_get ::
  "environ \<Rightarrow> jstring \<Rightarrow> bool \<Rightarrow> jsvalue \<Rightarrow> bool \<Rightarrow> error + jsvalue" where
  "Env_get c key required defVal trim =
     (let raw = cache_lookup c key in
      if (raw = Undefined \<or> raw = Str []) \<and> \<not> required then Inr defVal
      else if raw = Undefined \<or> raw = Str [] then Inl (MissingEnvironmentVariable key)
      else if trim
        then (case raw of Str s \<Rightarrow> Inr (Str (js_trim s)) | _ \<Rightarrow> Inl TrimIsNotAFunction)
        else Inr raw)"

definition Env_has :: "environ \<Rightarrow> jstring \<Rightarrow> bool" where
  "Env_has c key = (cache_lookup c key \<noteq> Undefined \<and> cache_lookup c key \<noteq> Str [])"

text \<open>\<^verbatim>\<open>Env.getString(key, required = true, def?)\<close>; an omitted default is
  \<^verbatim>\<open>undefined\<close>.\<close>

definition Env_getString ::
  "environ \<Rightarrow> jstring \<Rightarrow> bool \<Rightarrow> jstring option \<Rightarrow> error + jsvalue" where
  "Env_getString c key required def =
     Env_get c key required (case def of None \<Rightarrow> Undefined | Some s \<Rightarrow> Str s) True"

section \<open>The one-time-password library\<close>

text \<open>
  \<^verbatim>\<open>otp.ts\<close> delegates parsing, code generation and validation to the
  \<^verbatim>\<open>otpauth\<close> package, whose code is not part of the repository's sources.  The
  engine is therefore defined over an arbitrary library: a record of the three entry
  points it calls.  The library functions read the clock when no timestamp is passed, so
  they take the current time (milliseconds since the epoch) as an argument.
\<close>

datatype 't parsed = TOTP 't | HOTP

record 't otpauth =
  URI_parse :: "jsvalue \<Rightarrow> parse_error + 't parsed"
  generate :: "'t \<Rightarrow> int \<Rightarrow> int option \<Rightarrow> jstring"
  validate :: "'t \<Rightarrow> int \<Rightarrow> jstring \<Rightarrow> nat \<Rightarrow> int option \<Rightarrow> int option"

section \<open>The engine (src/framework/security/otp.ts)\<close>

record 't otp =
  uri :: "jstring option"
  envKey :: "jstring option"
  totp :: "'t option"

definition fromEnv :: "jstring \<Rightarrow> 't otp" where
  "fromEnv k = \<lparr>uri = None, envKey = Some k, totp = None\<rparr>"

definition fromUri :: "jstring \<Rightarrow> 't otp" where
  "fromUri u = \<lparr>uri = Some u, envKey = None, totp = None\<rparr>"

definition getUri :: "environ \<Rightarrow> 't otp \<Rightarrow> error + jsvalue" where
  "getUri c eng =
     (if truthy (uri eng) \<and> truthy (Some (js_trim (the (uri eng))))
      then Inr (Str (js_trim (the (uri eng))))
      else if truthy (envKey eng) then Env_getString c (the (envKey eng)) True None
      else Inl NoUriOrEnvKey)"

text \<open>The source of the configuration as the error messages name it:
  \<^verbatim>\<open>this.envKey ?? "direct"\<close>.\<close>

definition source_name :: "'t otp \<Rightarrow> jstring" where
  "source_name eng = (case envKey eng of None \<Rightarrow> js ''direct'' | Some k \<Rightarrow> k)"

text \<open>
  \<open>getTOTP\<close> returns the parsed configuration together with the engine, whose cache
  slot it fills on the first successful parse.  A throw leaves the engine as it was.
\<close>

definition getTOTP :: "'t otpauth \<Rightarrow> environ \<Rightarrow> 't otp \<Rightarrow> error + ('t \<times> 't otp)" where
  "getTOTP L c eng =
     (case totp eng of
        Some t \<Rightarrow> Inr (t, eng)
      | None \<Rightarrow>
          (case getUri c eng of
             Inl err \<Rightarrow> Inl err
           | Inr u \<Rightarrow>
               (case URI_parse L u of
                  Inl pe \<Rightarrow> Inl (InvalidOtpauthUri (source_name eng) pe)
                | Inr HOTP \<Rightarrow> Inl (NotTotpConfiguration (source_name eng))
                | Inr (TOTP t) \<Rightarrow> Inr (t, eng\<lparr>totp := Some t\<rparr>))))"

text \<open>
  \<open>getCode\<close>: the timestamp (milliseconds) is passed on only when it is truthy; an
  omitted timestamp and the number 0 both take the branch without a timestamp.
\<close>

definition getCode ::
  "'t otpauth \<Rightarrow> environ \<Rightarrow> int \<Rightarrow> 't otp \<Rightarrow> int option \<Rightarrow> error + (jstring \<times> 't otp)" where
  "getCode L c now eng timestamp =
     (case getTOTP L c eng of
        Inl err \<Rightarrow> Inl err
      | Inr (t, eng') \<Rightarrow>
          Inr (if timestamp \<noteq> None \<and> the timestamp \<noteq> 0
               then generate L t now timestamp
               else generate L t now None, eng'))"

definition toAsciiDigits :: "jstring \<Rightarrow> jstring" where
  "toAsciiDigits s =
     map (\<lambda>d. if 65296 \<le> d \<and> d \<le> 65305 then (d - 65296 + 48) mod 65536 else d) s"

definition normalizeToken :: "jstring \<Rightarrow> jstring" where
  "normalizeToken input =
     toUpperCase (filter (\<lambda>c. \<not> is_space c) (toAsciiDigits input))"

record vresult =
  ok :: bool
  delta :: "int option"
  reason :: "string option"

text \<open>
  \<open>verify\<close>: the parameter \<open>window\<close> defaults to 1; the timestamp is handed to the
  library as it is (omitted or not).  The code is a \<^verbatim>\<open>string\<close>, so the guard
  \<^verbatim>\<open>!code || typeof code !== "string"\<close> holds exactly for the empty string.
\<close>

definition verify ::
  "'t otpauth \<Rightarrow> environ \<Rightarrow> int \<Rightarrow> 't otp \<Rightarrow> jstring \<Rightarrow> nat option \<Rightarrow> int option
     \<Rightarrow> error + (vresult \<times> 't otp)" where
  "verify L c now eng code window timestamp =
     (case getTOTP L c eng of
        Inl err \<Rightarrow> Inl err
      | Inr (t, eng') \<Rightarrow>
          if code = []
          then Inr (\<lparr>ok = False, delta = None, reason = Some ''Empty or non-string code''\<rparr>, eng')
          else
            (let token = normalizeToken code;
                 d = validate L t now token (case window of None \<Rightarrow> 1 | Some w \<Rightarrow> w) timestamp
             in Inr (\<lparr>ok = (d \<noteq> None), delta = d,
                      reason = (if d = None then Some ''Invalid or out-of-window token''
                                else None)\<rparr>, eng')))"

definition verifyBool ::
  "'t otpauth \<Rightarrow> environ \<Rightarrow> int \<Rightarrow> 't otp \<Rightarrow> jstring \<Rightarrow> nat option \<Rightarrow> int option
     \<Rightarrow> error + (bool \<times> 't otp)" where
  "verifyBool L c now eng code window timestamp =
     (case verify L c now eng code window timestamp of
        Inl err \<Rightarrow> Inl err
      | Inr (r, eng') \<Rightarrow> Inr (ok r, eng'))"

definition refresh :: "'t otp \<Rightarrow> 't otp" where
  "refresh eng = eng\<lparr>totp := None\<rparr>"

section \<open>A library modelled from the specification\<close>

text \<open>
  Modelled from the spec: the \<^verbatim>\<open>otpauth\<close> package (URI parsing, code generation
  and validation) is used by \<^verbatim>\<open>otp.ts\<close> but is not among the repository's sources.
  The definitions of this section follow the specification's sections 3, 4.2, 4.3 and 4.4
  and the standards it names (base32, HMAC with SHA-1, SHA-256 or SHA-512, RFC 6238).
  Bytes and machine words are natural numbers with the reduction modulo the word size
  written out.
\<close>

subsection \<open>Bytes and words\<close>

type_synonym byte = nat

primrec be_bytes :: "nat \<Rightarrow> nat \<Rightarrow> byte list" where
  "be_bytes 0 n = []"
| "be_bytes (Suc k) n = be_bytes k (n div 256) @ [n mod 256]"

definition word_be :: "byte list \<Rightarrow> nat" where
  "word_be bs = foldl (\<lambda>acc b. acc * 256 + b) 0 bs"

function chunks :: "nat \<Rightarrow> 'a list \<Rightarrow> 'a list list" where
  "chunks n xs =
     (if n = 0 \<or> length xs < n then [] else take n xs # chunks n (drop n xs))"
  by pat_completeness auto
termination
  by (relation "measure (\<lambda>(n, xs). length xs)") auto

declare chunks.simps [simp del]

definition rotl :: "nat \<Rightarrow> nat \<Rightarrow> nat \<Rightarrow> nat" where
  "rotl w n x = (x * 2 ^ n) mod 2 ^ w + x div 2 ^ (w - n)"

definition rotr :: "nat \<Rightarrow> nat \<Rightarrow> nat \<Rightarrow> nat" where
  "rotr w n x = x div 2 ^ n + (x * 2 ^ (w - n)) mod 2 ^ w"

definition wnot :: "nat \<Rightarrow> nat \<Rightarrow> nat" where
  "wnot w x = 2 ^ w - 1 - x"

definition wadd :: "nat \<Rightarrow> nat \<Rightarrow> nat \<Rightarrow> nat" where
  "wadd w x y = (x + y) mod 2 ^ w"

text \<open>
  Modelled from the spec: the padding of the SHA family (a 1 bit, zeros, the message
  length in bits as a big-endian number of \<open>lenb\<close> bytes, up to a multiple of the block
  size \<open>blk\<close>).
\<close>

definition md_pad :: "nat \<Rightarrow> nat \<Rightarrow> byte list \<Rightarrow> byte list" where
  "md_pad blk lenb m =
     m @ [128] @ replicate ((2 * blk - 1 - lenb - length m mod blk) mod blk) 0
       @ be_bytes lenb (8 * length m)"

subsection \<open>SHA-1\<close>

text \<open>Modelled from the spec: the hash SHA1 of the algorithm field (FIPS 180-4).\<close>

definition sha1_ch :: "nat \<Rightarrow> nat \<Rightarrow> nat \<Rightarrow> nat" where
  "sha1_ch b c d = (b AND c) OR (wnot 32 b AND d)"

definition sha1_parity :: "nat \<Rightarrow> nat \<Rightarrow> nat \<Rightarrow> nat" where
  "sha1_parity b c d = b XOR c XOR d"

definition sha1_maj :: "nat \<Rightarrow> nat \<Rightarrow> nat \<Rightarrow> nat" where
  "sha1_maj b c d = (b AND c) OR (b AND d) OR (c AND d)"

text \<open>The message schedule, newest word first: \<open>n\<close> more words are added.\<close>

primrec sha1_sched :: "nat \<Rightarrow> nat list \<Rightarrow> nat list" where
  "sha1_sched 0 r = r"
| "sha1_sched (Suc n) r =
     sha1_sched n (rotl 32 1 (r ! 2 XOR r ! 7 XOR r ! 13 XOR r ! 15) # r)"

definition sha1_step ::
  "(nat \<Rightarrow> nat \<Rightarrow> nat \<Rightarrow> nat) \<Rightarrow> nat \<Rightarrow> nat \<Rightarrow> nat list \<Rightarrow> nat list" where
  "sha1_step f k w s =
     [(rotl 32 5 (s ! 0) + f (s ! 1) (s ! 2) (s ! 3) + s ! 4 + k + w) mod 2 ^ 32,
      s ! 0, rotl 32 30 (s ! 1), s ! 2, s ! 3]"

definition sha1_rounds :: "nat list \<Rightarrow> nat list \<Rightarrow> nat list" where
  "sha1_rounds w h =
     fold (sha1_step sha1_parity 3395469782) (drop 60 w)
       (fold (sha1_step sha1_maj 2400959708) (take 20 (drop 40 w))
         (fold (sha1_step sha1_parity 1859775393) (take 20 (drop 20 w))
           (fold (sha1_step sha1_ch 1518500249) (take 20 w) h)))"

definition sha1_compress :: "byte list \<Rightarrow> nat list \<Rightarrow> nat list" where
  "sha1_compress blk h =
     map2 (wadd 32) h
       (sha1_rounds (rev (sha1_sched 64 (rev (map word_be (chunks 4 blk))))) h)"

definition sha1 :: "byte list \<Rightarrow> byte list" where
  "sha1 m = concat (map (be_bytes 4)
     (fold sha1_compress (chunks 64 (md_pad 64 8 m))
        [1732584193, 4023233417, 2562383102, 271733878, 3285377520]))"

subsection \<open>SHA-256 and SHA-512\<close>

text \<open>
  Modelled from the spec: the hashes SHA256 and SHA512 of the algorithm field (FIPS
  180-4).  Both run the same rounds on words of \<open>w\<close> bits; \<open>p\<close> lists the twelve
  rotation and shift amounts and \<open>ks\<close> the round constants.
\<close>

definition sha2_sched_step :: "nat \<Rightarrow> nat list \<Rightarrow> nat list \<Rightarrow> nat list" where
  "sha2_sched_step w p r =
     ((rotr w (p ! 9) (r ! 1) XOR rotr w (p ! 10) (r ! 1) XOR (r ! 1) div 2 ^ (p ! 11))
       + r ! 6
       + (rotr w (p ! 6) (r ! 14) XOR rotr w (p ! 7) (r ! 14) XOR (r ! 14) div 2 ^ (p ! 8))
       + r ! 15) mod 2 ^ w # r"

primrec sha2_sched :: "nat \<Rightarrow> nat list \<Rightarrow> nat \<Rightarrow> nat list \<Rightarrow> nat list" where
  "sha2_sched w p 0 r = r"
| "sha2_sched w p (Suc n) r = sha2_sched w p n (sha2_sched_step w p r)"

definition sha2_t1 :: "nat \<Rightarrow> nat list \<Rightarrow> nat \<times> nat \<Rightarrow> nat list \<Rightarrow> nat" where
  "sha2_t1 w p kw s =
     (s ! 7 + (rotr w (p ! 3) (s ! 4) XOR rotr w (p ! 4) (s ! 4) XOR rotr w (p ! 5) (s ! 4))
        + ((s ! 4 AND s ! 5) XOR (wnot w (s ! 4) AND s ! 6)) + fst kw + snd kw) mod 2 ^ w"

definition sha2_t2 :: "nat \<Rightarrow> nat list \<Rightarrow> nat list \<Rightarrow> nat" where
  "sha2_t2 w p s =
     ((rotr w (p ! 0) (s ! 0) XOR rotr w (p ! 1) (s ! 0) XOR rotr w (p ! 2) (s ! 0))
        + ((s ! 0 AND s ! 1) XOR (s ! 0 AND s ! 2) XOR (s ! 1 AND s ! 2))) mod 2 ^ w"

definition sha2_next :: "nat \<Rightarrow> nat list \<Rightarrow> nat \<Rightarrow> nat \<Rightarrow> nat list" where
  "sha2_next w s t1 t2 =
     [wadd w t1 t2, s ! 0, s ! 1, s ! 2, wadd w (s ! 3) t1, s ! 4, s ! 5, s ! 6]"

definition sha2_step :: "nat \<Rightarrow> nat list \<Rightarrow> nat \<times> nat \<Rightarrow> nat list \<Rightarrow> nat list" where
  "sha2_step w p kw s = sha2_next w s (sha2_t1 w p kw s) (sha2_t2 w p s)"

definition sha2_compress ::
  "nat \<Rightarrow> nat list \<Rightarrow> nat list \<Rightarrow> byte list \<Rightarrow> nat list \<Rightarrow> nat list" where
  "sha2_compress w p ks blk h =
     map2 (wadd w) h
       (fold (sha2_step w p)
          (zip ks (rev (sha2_sched w p (length ks - 16)
                          (rev (map word_be (chunks (w div 8) blk))))))
          h)"

definition sha256_rot :: "nat list" where
  "sha256_rot = [2, 13, 22, 6, 11, 25, 7, 18, 3, 17, 19, 10]"

definition sha512_rot :: "nat list" where
  "sha512_rot = [28, 34, 39, 14, 18, 41, 1, 8, 7, 19, 61, 6]"

definition sha256_k :: "nat list" where
  "sha256_k = [
    1116352408, 1899447441, 3049323471, 3921009573, 961987163, 1508970993,
    2453635748, 2870763221, 3624381080, 310598401, 607225278, 1426881987,
    1925078388, 2162078206, 2614888103, 3248222580, 3835390401, 4022224774,
    264347078, 604807628, 770255983, 1249150122, 1555081692, 1996064986,
    2554220882, 2821834349, 2952996808, 3210313671, 3336571891, 3584528711,
    113926993, 338241895, 666307205, 773529912, 1294757372, 1396182291,
    1695183700, 1986661051, 2177026350, 2456956037, 2730485921, 2820302411,
    3259730800, 3345764771, 3516065817, 3600352804, 4094571909, 275423344,
    430227734, 506948616, 659060556, 883997877, 958139571, 1322822218,
    1537002063, 1747873779, 1955562222, 2024104815, 2227730452, 2361852424,
    2428436474, 2756734187, 3204031479, 3329325298]"

definition sha512_k :: "nat list" where
  "sha512_k = [
    4794697086780616226, 8158064640168781261, 13096744586834688815,
    16840607885511220156, 4131703408338449720, 6480981068601479193,
    10538285296894168987, 12329834152419229976, 15566598209576043074,
    1334009975649890238, 2608012711638119052, 6128411473006802146,
    8268148722764581231, 9286055187155687089, 11230858885718282805,
    13951009754708518548, 16472876342353939154, 17275323862435702243,
    1135362057144423861, 2597628984639134821, 3308224258029322869,
    5365058923640841347, 6679025012923562964, 8573033837759648693,
    10970295158949994411, 12119686244451234320, 12683024718118986047,
    13788192230050041572, 14330467153632333762, 15395433587784984357,
    489312712824947311, 1452737877330783856, 2861767655752347644,
    3322285676063803686, 5560940570517711597, 5996557281743188959,
    7280758554555802590, 8532644243296465576, 9350256976987008742,
    10552545826968843579, 11727347734174303076, 12113106623233404929,
    14000437183269869457, 14369950271660146224, 15101387698204529176,
    15463397548674623760, 17586052441742319658, 1182934255886127544,
    1847814050463011016, 2177327727835720531, 2830643537854262169,
    3796741975233480872, 4115178125766777443, 5681478168544905931,
    6601373596472566643, 7507060721942968483, 8399075790359081724,
    8693463985226723168, 9568029438360202098, 10144078919501101548,
    10430055236837252648, 11840083180663258601, 13761210420658862357,
    14299343276471374635, 14566680578165727644, 15097957966210449927,
    16922976911328602910, 17689382322260857208, 500013540394364858,
    748580250866718886, 1242879168328830382, 1977374033974150939,
    2944078676154940804, 3659926193048069267, 4368137639120453308,
    4836135668995329356, 5532061633213252278, 6448918945643986474,
    6902733635092675308, 7801388544844847127]"

definition sha256 :: "byte list \<Rightarrow> byte list" where
  "sha256 m = concat (map (be_bytes 4)
     (fold (sha2_compress 32 sha256_rot sha256_k) (chunks 64 (md_pad 64 8 m))
        [
    1779033703, 3144134277, 1013904242, 2773480762,
    1359893119, 2600822924, 528734635, 1541459225]))"

definition sha512 :: "byte list \<Rightarrow> byte list" where
  "sha512 m = concat (map (be_bytes 8)
     (fold (sha2_compress 64 sha512_rot sha512_k) (chunks 128 (md_pad 128 16 m))
        [
    7640891576956012808, 13503953896175478587,
    4354685564936845355, 11912009170470909681,
    5840696475078001361, 11170449401992604703,
    2270897969802886507, 6620516959819538809]))"

subsection \<open>HMAC\<close>

text \<open>
  Modelled from the spec: \<open>HMAC(algorithm, secret, message)\<close> of section 4.3 (RFC 2104):
  the key is hashed when longer than a block and padded with zeros to a block; the inner
  pad is 0x36, the outer pad 0x5C.
\<close>

datatype algorithm = SHA1 | SHA256 | SHA512

fun hash :: "algorithm \<Rightarrow> byte list \<Rightarrow> byte list" where
  "hash SHA1 m = sha1 m"
| "hash SHA256 m = sha256 m"
| "hash SHA512 m = sha512 m"

fun block_size :: "algorithm \<Rightarrow> nat" where
  "block_size SHA1 = 64"
| "block_size SHA256 = 64"
| "block_size SHA512 = 128"

definition hmac_key :: "algorithm \<Rightarrow> byte list \<Rightarrow> byte list" where
  "hmac_key alg key =
     (if length key > block_size alg then hash alg key else key)
       @ replicate (block_size alg
           - length (if length key > block_size alg then hash alg key else key)) 0"

definition hmac :: "algorithm \<Rightarrow> byte list \<Rightarrow> byte list \<Rightarrow> byte list" where
  "hmac alg key msg =
     hash alg (map (\<lambda>x. x XOR 92) (hmac_key alg key)
        @ hash alg (map (\<lambda>x. x XOR 54) (hmac_key alg key) @ msg))"

subsection \<open>The parsed configuration and the provisioning string\<close>

text \<open>
  Modelled from the spec: the parameter set \<open>TotpSpec\<close> of section 3.  Its invariant
  (\<open>digits\<close> between 1 and 10, positive \<open>period\<close>, non-empty \<open>secret\<close>) is what the
  parser establishes.
\<close>

record totp_spec =
  secret :: "byte list"
  algorithm :: algorithm
  digits :: nat
  period :: nat
  label :: jstring
  issuer :: "jstring option"

definition valid_spec :: "totp_spec \<Rightarrow> bool" where
  "valid_spec t = (1 \<le> digits t \<and> digits t \<le> 10 \<and> 0 < period t \<and> secret t \<noteq> [])"

text \<open>
  Modelled from the spec: base32 decoding of the secret (the alphabet A to Z and 2 to 7
  of RFC 4648); \<open>None\<close> when the alphabet or the padding is malformed.  The padding may
  be left out; when it is present it is a run of \<^verbatim>\<open>=\<close> at the end that fills the last
  group of 8 characters, so it has fewer than 8 characters.
\<close>

definition b32_value :: "nat \<Rightarrow> nat option" where
  "b32_value c =
     (if 65 \<le> c \<and> c \<le> 90 then Some (c - 65)
      else if 50 \<le> c \<and> c \<le> 55 then Some (c - 24)
      else None)"

definition base32_decode :: "jstring \<Rightarrow> byte list option" where
  "base32_decode s =
     (let body = takeWhile (\<lambda>c. c \<noteq> 61) s;
          pad = drop (length body) s
      in if list_all (\<lambda>c. b32_value c \<noteq> None) body
            \<and> list_all (\<lambda>c. c = 61) pad
            \<and> length body mod 8 \<in> {0, 2, 4, 5, 7}
            \<and> (pad = [] \<or> (length pad < 8 \<and> length s mod 8 = 0))
         then Some (be_bytes (length body * 5 div 8)
                 (foldl (\<lambda>a c. a * 32 + the (b32_value c)) 0 body
                    div 2 ^ (length body * 5 mod 8)))
         else None)"

text \<open>
  Modelled from the spec: the grammar of the provisioning string (sections 4.2 and 6): the
  scheme \<^verbatim>\<open>otpauth://\<close>, the type (\<^verbatim>\<open>totp\<close> or \<^verbatim>\<open>hotp\<close>), a label, and query
  parameters \<^verbatim>\<open>secret\<close> (required), \<^verbatim>\<open>algorithm\<close> (default SHA1), \<^verbatim>\<open>digits\<close>
  (default 6), \<^verbatim>\<open>period\<close> (default 30) and \<^verbatim>\<open>issuer\<close>.  A malformed secret gives
  \<open>InvalidSecretError\<close>; every other violation gives \<open>MalformedConfigurationError\<close>; a
  counter-based configuration parses to \<open>HOTP\<close>, which the engine rejects.
\<close>

fun split_first :: "nat \<Rightarrow> jstring \<Rightarrow> (jstring \<times> jstring) option" where
  "split_first sep [] = None"
| "split_first sep (x # xs) =
     (if x = sep then Some ([], xs)
      else map_option (\<lambda>(a, b). (x # a, b)) (split_first sep xs))"

fun split_all :: "nat \<Rightarrow> jstring \<Rightarrow> jstring list" where
  "split_all sep [] = [[]]"
| "split_all sep (x # xs) =
     (if x = sep then [] # split_all sep xs
      else (case split_all sep xs of [] \<Rightarrow> [[x]] | y # ys \<Rightarrow> (x # y) # ys))"

definition query_params :: "jstring \<Rightarrow> (jstring \<times> jstring) list" where
  "query_params q =
     map (\<lambda>kv. case split_first 61 kv of None \<Rightarrow> (kv, []) | Some p \<Rightarrow> p) (split_all 38 q)"

definition uri_parts :: "jstring \<Rightarrow> (jstring \<times> jstring \<times> (jstring \<times> jstring) list) option" where
  "uri_parts s =
     (if take 10 s = js ''otpauth://''
      then (case split_first 47 (drop 10 s) of
              None \<Rightarrow> None
            | Some (ty, rest) \<Rightarrow>
                (case split_first 63 rest of
                   None \<Rightarrow> Some (ty, rest, [])
                 | Some (lbl, q) \<Rightarrow> Some (ty, lbl, query_params q)))
      else None)"

definition decimal_value :: "jstring \<Rightarrow> nat option" where
  "decimal_value s =
     (if s \<noteq> [] \<and> list_all (\<lambda>c. 48 \<le> c \<and> c \<le> 57) s
      then Some (foldl (\<lambda>a c. a * 10 + (c - 48)) 0 s) else None)"

definition algorithm_of :: "jstring \<Rightarrow> algorithm option" where
  "algorithm_of s =
     (if s = js ''SHA1'' then Some SHA1
      else if s = js ''SHA256'' then Some SHA256
      else if s = js ''SHA512'' then Some SHA512
      else None)"

definition param_or :: "'a \<Rightarrow> (jstring \<Rightarrow> 'a option) \<Rightarrow> jstring option \<Rightarrow> 'a option" where
  "param_or dflt rd v = (case v of None \<Rightarrow> Some dflt | Some s \<Rightarrow> rd s)"

definition build_spec ::
  "jstring \<Rightarrow> (jstring \<times> jstring) list \<Rightarrow> byte list \<Rightarrow> parse_error + totp_spec parsed" where
  "build_spec lbl ps key =
     (case (param_or SHA1 algorithm_of (map_of ps (js ''algorithm'')),
            param_or 6 decimal_value (map_of ps (js ''digits'')),
            param_or 30 decimal_value (map_of ps (js ''period''))) of
        (Some a, Some d, Some p) \<Rightarrow>
          (if 1 \<le> d \<and> d \<le> 10 \<and> 0 < p \<and> key \<noteq> []
           then Inr (TOTP \<lparr>secret = key, algorithm = a, digits = d, period = p,
                          label = lbl, issuer = map_of ps (js ''issuer'')\<rparr>)
           else Inl MalformedConfigurationError)
      | _ \<Rightarrow> Inl MalformedConfigurationError)"

definition parse_uri :: "jstring \<Rightarrow> parse_error + totp_spec parsed" where
  "parse_uri s =
     (case uri_parts s of
        None \<Rightarrow> Inl MalformedConfigurationError
      | Some (ty, lbl, ps) \<Rightarrow>
          (case map_of ps (js ''secret'') of
             None \<Rightarrow> Inl MalformedConfigurationError
           | Some sec \<Rightarrow>
               (case base32_decode sec of
                  None \<Rightarrow> Inl InvalidSecretError
                | Some key \<Rightarrow>
                    if ty = js ''hotp'' then Inr HOTP
                    else if ty = js ''totp'' then build_spec lbl ps key
                    else Inl MalformedConfigurationError)))"

subsection \<open>Code generation and validation\<close>

text \<open>
  Modelled from the spec: the code generator of section 4.3.  Instants are milliseconds
  since the epoch, as \<^verbatim>\<open>otp.ts\<close> passes them; the counter is
  \<open>floor (unixSeconds instant / period)\<close>, written as an 8-byte big-endian number
  (modulo \<open>2 ^ 64\<close>).
\<close>

definition unixSeconds :: "int \<Rightarrow> int" where
  "unixSeconds ms = ms div 1000"

definition counter :: "totp_spec \<Rightarrow> int \<Rightarrow> int" where
  "counter t ms = unixSeconds ms div int (period t)"

definition counter_bytes :: "int \<Rightarrow> byte list" where
  "counter_bytes n = be_bytes 8 (nat (n mod 2 ^ 64))"

definition truncate31 :: "byte list \<Rightarrow> nat" where
  "truncate31 mac = word_be (take 4 (drop (last mac mod 16) mac)) mod 2 ^ 31"

function decimal :: "nat \<Rightarrow> jstring" where
  "decimal n = (if n < 10 then [48 + n] else decimal (n div 10) @ [48 + n mod 10])"
  by pat_completeness auto
termination
  by (relation "measure (\<lambda>n. n)") auto

declare decimal.simps [simp del]

definition left_pad :: "nat \<Rightarrow> jstring \<Rightarrow> jstring" where
  "left_pad k s = replicate (k - length s) 48 @ s"

definition hotp_code :: "totp_spec \<Rightarrow> int \<Rightarrow> jstring" where
  "hotp_code t n =
     left_pad (digits t)
       (decimal (truncate31 (hmac (algorithm t) (secret t) (counter_bytes n))
                   mod 10 ^ digits t))"

definition totp_code :: "totp_spec \<Rightarrow> int \<Rightarrow> jstring" where
  "totp_code t ms = hotp_code t (counter t ms)"

text \<open>
  Modelled from the spec: the validator of section 4.4 without the normalisation, which
  \<^verbatim>\<open>otp.ts\<close> does itself: the offsets are tried in the order 0, -1, +1, -2, +2, ... up
  to the window, the code of offset \<open>d\<close> is the code of the instant plus \<open>d\<close> periods,
  and the first offset whose code equals the candidate is the result.
\<close>

primrec offsets :: "nat \<Rightarrow> int list" where
  "offsets 0 = [0]"
| "offsets (Suc n) = offsets n @ [- int (Suc n), int (Suc n)]"

definition window_search :: "totp_spec \<Rightarrow> jstring \<Rightarrow> nat \<Rightarrow> int \<Rightarrow> int option" where
  "window_search t token w ms =
     find (\<lambda>d. totp_code t (ms + d * (int (period t) * 1000)) = token) (offsets w)"

text \<open>
  Modelled from the spec: the three entry points of the library.  An omitted instant
  defaults to the current time; a value that is not a string does not parse.
\<close>

definition instant_or_now :: "int \<Rightarrow> int option \<Rightarrow> int" where
  "instant_or_now now ts = (case ts of None \<Rightarrow> now | Some ms \<Rightarrow> ms)"

definition OTPAuth :: "totp_spec otpauth" where
  "OTPAuth =
     \<lparr>URI_parse = (\<lambda>u. case u of Str s \<Rightarrow> parse_uri s
                          | _ \<Rightarrow> Inl MalformedConfigurationError),
      generate = (\<lambda>t now ts. totp_code t (instant_or_now now ts)),
      validate = (\<lambda>t now token w ts. window_search t token w (instant_or_now now ts))\<rparr>"

section \<open>The normaliser as the specification words it\<close>

text \<open>
  The specification describes the token normaliser as four steps in this order: trim the
  surrounding whitespace, convert full-width decimal digits to ASCII digits, remove all
  internal whitespace, upper-case the remaining letters.  \<open>normalize_spec\<close> follows
  these words; \<open>normalizeToken\<close> above follows the source, which has no trimming step.
\<close>

definition normalize_spec :: "jstring \<Rightarrow> jstring" where
  "normalize_spec s =
     toUpperCase (filter (\<lambda>c. \<not> is_space c) (toAsciiDigits (js_trim s)))"

section \<open>A malformed secret as the specification words it\<close>

text \<open>
  Modelled from the spec: section 4.2 lets the parser fail with \<open>InvalidSecretError\<close> when
  the alphabet or the padding of the secret is malformed.  The two predicates say this on
  the characters of the secret, without decoding it.  The alphabet is malformed when some
  character other than the padding character \<^verbatim>\<open>=\<close> is outside \<^verbatim>\<open>A\<close> to \<^verbatim>\<open>Z\<close> and \<^verbatim>\<open>2\<close> to \<^verbatim>\<open>7\<close>.
  The padding is malformed when a padding character stands before a data character, when
  the number of data characters is one that no whole number of bytes encodes (1, 3 or 6
  beyond a multiple of 8), or when padding is present and does not fill the last group of
  eight characters (eight or more padding characters, or a total length that is not a
  multiple of 8).
\<close>

definition malformed_alphabet :: "jstring \<Rightarrow> bool" where
  "malformed_alphabet s =
     list_ex (\<lambda>c. c \<noteq> 61 \<and> \<not> (65 \<le> c \<and> c \<le> 90) \<and> \<not> (50 \<le> c \<and> c \<le> 55)) s"

definition malformed_padding :: "jstring \<Rightarrow> bool" where
  "malformed_padding s =
     (let n = length (takeWhile (\<lambda>c. c = 61) (rev s));
          m = length s - n
      in list_ex (\<lambda>c. c = 61) (take m s)
         \<or> m mod 8 \<in> {1, 3, 6}
         \<or> (0 < n \<and> (8 \<le> n \<or> 0 < (m + n) mod 8)))"

section \<open>Example configurations\<close>

text \<open>
  The provisioning string of the specification's end-to-end scenario (secret
  \<^verbatim>\<open>JBSWY3DPEHPK3PXP\<close>, SHA1, 6 digits, period 30) and a variant with 1 digit.
\<close>

definition demo_secret :: "byte list" where
  "demo_secret = [72, 101, 108, 108, 111, 33, 222, 173, 190, 239]"

definition demo_uri :: jstring where
  "demo_uri = js ''otpauth://totp/Demo?secret=JBSWY3DPEHPK3PXP''"

definition demo_spec :: totp_spec where
  "demo_spec = \<lparr>secret = demo_secret, algorithm = SHA1, digits = 6, period = 30,
                 label = js ''Demo'', issuer = None\<rparr>"

definition demo1_uri :: jstring where
  "demo1_uri = js ''otpauth://totp/Demo?secret=JBSWY3DPEHPK3PXP&digits=1''"

definition demo1_spec :: totp_spec where
  "demo1_spec = \<lparr>secret = demo_secret, algorithm = SHA1, digits = 1, period = 30,
                  label = js ''Demo'', issuer = None\<rparr>"

text \<open>
  The position of an offset in the search order 0, -1, +1, -2, +2, ... of the validator.
\<close>

fun search_rank :: "int \<Rightarrow> nat" where
  "search_rank d = (if 0 < d then nat (2 * d) else if d < 0 then nat (- 2 * d) - 1 else 0)"

section \<open>Evaluating the library model\<close>

lemma sha1_sched_numeral:
  "sha1_sched (numeral k) r =
     sha1_sched (pred_numeral k) (rotl 32 1 (r ! 2 XOR r ! 7 XOR r ! 13 XOR r ! 15) # r)"
  by (simp add: numeral_eq_Suc)

lemma replicate_numeral: "replicate (numeral k) x = x # replicate (pred_numeral k) x"
  by (simp add: numeral_eq_Suc)

lemma be_bytes_numeral:
  "be_bytes (numeral k) n = be_bytes (pred_numeral k) (n div 256) @ [n mod 256]"
  by (metis be_bytes.simps(2) numeral_eq_Suc)

lemmas sha1_eval =
  sha1_def md_pad_def hmac_def hmac_key_def sha1_compress_def sha1_rounds_def sha1_step_def
  sha1_ch_def sha1_parity_def sha1_maj_def rotl_def wnot_def wadd_def chunks.simps word_be_def
  sha1_sched_numeral replicate_numeral be_bytes_numeral

lemmas parse_eval =
  parse_uri_def uri_parts_def query_params_def build_spec_def param_or_def base32_decode_def
  b32_value_def decimal_value_def algorithm_of_def js_def be_bytes_numeral

lemma parse_demo_uri: "parse_uri demo_uri = Inr (TOTP demo_spec)"
  by (simp add: demo_uri_def demo_spec_def demo_secret_def parse_eval)

lemma parse_demo1_uri: "parse_uri demo1_uri = Inr (TOTP demo1_spec)"
  by (simp add: demo1_uri_def demo1_spec_def demo_secret_def parse_eval)

lemma hmac_demo_0:
  "hmac SHA1 demo_secret [0, 0, 0, 0, 0, 0, 0, 0] =
     [44, 216, 233, 4, 227, 149, 167, 65, 72, 119, 170, 47, 130, 97, 225, 36, 53, 114, 196, 53]"
  unfolding demo_secret_def by (simp add: sha1_eval)

lemma hmac_demo_2:
  "hmac SHA1 demo_secret [0, 0, 0, 0, 0, 0, 0, 2] =
     [231, 126, 129, 100, 82, 252, 248, 124, 125, 138, 175, 205, 115, 9, 196, 0, 6, 47, 58, 135]"
  unfolding demo_secret_def by (simp add: sha1_eval)

lemma hmac_demo_3:
  "hmac SHA1 demo_secret [0, 0, 0, 0, 0, 0, 0, 3] =
     [106, 185, 57, 8, 220, 219, 74, 63, 180, 149, 211, 138, 32, 79, 65, 9, 135, 203, 20, 94]"
  unfolding demo_secret_def by (simp add: sha1_eval)

lemmas code_eval =
  hotp_code_def counter_bytes_def truncate31_def word_be_def left_pad_def decimal.simps
  be_bytes_numeral replicate_numeral js_def

lemma hotp_demo_0: "hotp_code demo_spec 0 = js ''282760''"
  by (simp add: demo_spec_def code_eval hmac_demo_0)

lemma hotp_demo_2: "hotp_code demo_spec 2 = js ''602287''"
  by (simp add: demo_spec_def code_eval hmac_demo_2)

lemma hotp_demo_3: "hotp_code demo_spec 3 = js ''143627''"
  by (simp add: demo_spec_def code_eval hmac_demo_3)

lemma hotp_demo1_2: "hotp_code demo1_spec 2 = js ''7''"
  by (simp add: demo1_spec_def code_eval hmac_demo_2)

lemma hotp_demo1_3: "hotp_code demo1_spec 3 = js ''7''"
  by (simp add: demo1_spec_def code_eval hmac_demo_3)



section \<open>Case mapping\<close>

lemma decode_utf16_no_high:
  "list_all (\<lambda>c. c < 55296 \<or> 56319 < c) s \<Longrightarrow> decode_utf16 s = s"
  by (induction s rule: decode_utf16.induct) auto

lemma toUpperCase_no_high:
  "list_all (\<lambda>c. c < 55296 \<or> 56319 < c) s \<Longrightarrow>
     toUpperCase s = concat (map (\<lambda>c. concat (map encode_utf16 (upper_cp c))) s)"
  by (simp add: toUpperCase_def decode_utf16_no_high) (induction s, auto)

lemma toUpperCase_single: "toUpperCase [c] = concat (map encode_utf16 (upper_cp c))"
  by (simp add: toUpperCase_def)

lemma toUpperCase_ascii:
  "list_all (\<lambda>c. c < 128) s \<Longrightarrow>
     toUpperCase s = map (\<lambda>c. if 97 \<le> c \<and> c \<le> 122 then c - 32 else c) s"
proof -
  assume a: "list_all (\<lambda>c. c < 128) s"
  then have "list_all (\<lambda>c. c < 55296 \<or> 56319 < c) s" by (induction s) auto
  then have "toUpperCase s = concat (map (\<lambda>c. concat (map encode_utf16 (upper_cp c))) s)"
    by (rule toUpperCase_no_high)
  also have "\<dots> = map (\<lambda>c. if 97 \<le> c \<and> c \<le> 122 then c - 32 else c) s"
    using a by (induction s) (auto simp: upper_cp_def encode_utf16_def)
  finally show ?thesis .
qed

lemma special_upper_nonempty: "list_all (\<lambda>p. snd p \<noteq> []) special_upper"
  by (simp add: special_upper_def)

lemma upper_cp_nonempty: "upper_cp c \<noteq> []"
proof (cases "map_of special_upper c")
  case None
  then show ?thesis by (simp add: upper_cp_def split: option.split)
next
  case (Some v)
  then have "(c, v) \<in> set special_upper" by (rule map_of_SomeD)
  then have "v \<noteq> []" using special_upper_nonempty by (auto simp: list_all_iff)
  then show ?thesis using Some by (simp add: upper_cp_def)
qed

lemma toUpperCase_single_nonempty: "toUpperCase [c] \<noteq> []"
proof -
  obtain x xs where "upper_cp c = x # xs" using upper_cp_nonempty by (cases "upper_cp c") auto
  then show ?thesis by (simp add: toUpperCase_single encode_utf16_def)
qed

section \<open>Properties of the library model\<close>

lemma decimal_digits: "list_all (\<lambda>c. 48 \<le> c \<and> c \<le> 57) (decimal n)"
proof (induction n rule: decimal.induct)
  case (1 n)
  show ?case
  proof (cases "n < 10")
    case True
    then show ?thesis by (subst decimal.simps) simp
  next
    case False
    with 1 have "list_all (\<lambda>c. 48 \<le> c \<and> c \<le> 57) (decimal (n div 10))" by simp
    moreover have "n mod 10 \<le> 9" by simp
    ultimately show ?thesis using False by (subst decimal.simps) simp
  qed
qed

lemma decimal_length: "n < 10 ^ k \<Longrightarrow> 0 < k \<Longrightarrow> length (decimal n) \<le> k"
proof (induction n arbitrary: k rule: decimal.induct)
  case (1 n)
  show ?case
  proof (cases "n < 10")
    case True
    with 1(3) show ?thesis by (subst decimal.simps) simp
  next
    case False
    obtain j where k: "k = Suc j" using 1(3) by (cases k) auto
    have "j \<noteq> 0" using False 1(2) k by (cases j) auto
    moreover have "n div 10 < 10 ^ j" using 1(2) k by (simp add: less_mult_imp_div_less mult.commute)
    ultimately have "length (decimal (n div 10)) \<le> j" using 1(1)[OF False] by simp
    then show ?thesis using False k by (subst decimal.simps) simp
  qed
qed

lemma length_left_pad: "length s \<le> k \<Longrightarrow> length (left_pad k s) = k"
  by (simp add: left_pad_def)

lemma length_hotp_code: "0 < digits t \<Longrightarrow> length (hotp_code t n) = digits t"
  unfolding hotp_code_def by (rule length_left_pad, rule decimal_length) simp_all

lemma replicate_digits: "list_all (\<lambda>c. 48 \<le> c \<and> c \<le> 57) (replicate m (48::nat))"
  by (induction m) auto

lemma hotp_code_digits: "list_all (\<lambda>c. 48 \<le> c \<and> c \<le> 57) (hotp_code t n)"
  by (simp add: hotp_code_def left_pad_def decimal_digits replicate_digits)

lemma normalizeToken_digits:
  "list_all (\<lambda>c. 48 \<le> c \<and> c \<le> 57) s \<Longrightarrow> normalizeToken s = s"
proof -
  assume a: "list_all (\<lambda>c. 48 \<le> c \<and> c \<le> 57) s"
  then have d: "toAsciiDigits s = s" by (induction s) (auto simp: toAsciiDigits_def)
  have f: "filter (\<lambda>c. \<not> is_space c) s = s" using a by (induction s) (auto simp: is_space_def)
  have "list_all (\<lambda>c. c < 128) s" using a by (induction s) auto
  then have "toUpperCase s = map (\<lambda>c. if 97 \<le> c \<and> c \<le> 122 then c - 32 else c) s"
    by (rule toUpperCase_ascii)
  also have "\<dots> = s" using a by (induction s) auto
  finally show ?thesis by (simp add: normalizeToken_def d f)
qed

lemma normalizeToken_totp_code: "normalizeToken (totp_code t ms) = totp_code t ms"
  by (simp add: totp_code_def normalizeToken_digits hotp_code_digits)

lemma counter_shift:
  assumes "0 < period t"
  shows "counter t (ms + d * (int (period t) * 1000)) = counter t ms + d"
proof -
  have "ms + d * (int (period t) * 1000) = ms + (d * int (period t)) * 1000" by simp
  then have "(ms + d * (int (period t) * 1000)) div 1000 = d * int (period t) + ms div 1000"
    by simp
  moreover have "(d * int (period t) + ms div 1000) div int (period t) = d + ms div 1000 div int (period t)"
    using assms by simp
  ultimately show ?thesis by (simp add: counter_def unixSeconds_def)
qed

lemma find_app:
  "find P (xs @ ys) = (case find P xs of None \<Rightarrow> find P ys | Some x \<Rightarrow> Some x)"
  by (induction xs) auto

lemma abs_le_Suc: "(\<bar>d\<bar> \<le> int (Suc w)) = (\<bar>d\<bar> \<le> int w \<or> d = - int (Suc w) \<or> d = int (Suc w))"
  by linarith

lemma set_offsets: "set (offsets w) = {d. \<bar>d\<bar> \<le> int w}"
proof (induction w)
  case 0
  show ?case by auto
next
  case (Suc w)
  have "set (offsets (Suc w)) = set (offsets w) \<union> {- int (Suc w), int (Suc w)}"
    by (simp only: offsets.simps set_append list.set)
  also have "\<dots> = {d. \<bar>d\<bar> \<le> int w \<or> d = - int (Suc w) \<or> d = int (Suc w)}"
    unfolding Suc.IH by blast
  finally show ?case by (simp only: abs_le_Suc)
qed

lemma search_rank_int: "int (search_rank d) = (if 0 < d then 2 * d else if d < 0 then - 2 * d - 1 else 0)"
  by auto

lemma rank_inner: "\<bar>d'\<bar> \<le> int w \<Longrightarrow> \<bar>d\<bar> = int (Suc w) \<Longrightarrow> search_rank d' \<le> search_rank d"
proof -
  assume a: "\<bar>d'\<bar> \<le> int w" "\<bar>d\<bar> = int (Suc w)"
  then have "int (search_rank d') \<le> int (search_rank d)" unfolding search_rank_int by (auto split: if_splits)
  then show ?thesis by simp
qed

lemma find_Some_props: "find P xs = Some x \<Longrightarrow> P x \<and> x \<in> set xs"
  by (induction xs) (auto split: if_splits)

lemma find_offsets_first:
  "d \<in> set (offsets w) \<Longrightarrow> P d \<Longrightarrow>
     \<exists>d'. find P (offsets w) = Some d' \<and> P d' \<and> search_rank d' \<le> search_rank d \<and> d' \<in> set (offsets w)"
proof (induction w)
  case 0
  then show ?case by simp
next
  case (Suc w)
  have unfold: "find P (offsets (Suc w)) =
      (case find P (offsets w) of None \<Rightarrow> find P [- int (Suc w), int (Suc w)] | Some x \<Rightarrow> Some x)"
    by (simp only: offsets.simps find_app)
  have sub: "set (offsets w) \<subseteq> set (offsets (Suc w))" by auto
  show ?case
  proof (cases "find P (offsets w)")
    case (Some d')
    then have d': "P d'" "d' \<in> set (offsets w)" using find_Some_props by fastforce+
    have res: "find P (offsets (Suc w)) = Some d'" using unfold Some by simp
    have "search_rank d' \<le> search_rank d"
    proof (cases "d \<in> set (offsets w)")
      case True
      from Suc.IH[OF True Suc.prems(2)] Some show ?thesis by auto
    next
      case False
      then have "\<bar>d\<bar> = int (Suc w)" using Suc.prems(1) by auto
      moreover have "\<bar>d'\<bar> \<le> int w" using d'(2) by (simp add: set_offsets)
      ultimately show ?thesis by (rule rank_inner[rotated])
    qed
    then show ?thesis using res d' sub by blast
  next
    case None
    then have "d \<notin> set (offsets w)" using Suc.prems(2) by (auto simp: find_None_iff)
    then have dd: "d = - int (Suc w) \<or> d = int (Suc w)" using Suc.prems(1) by auto
    have res: "find P (offsets (Suc w)) = find P [- int (Suc w), int (Suc w)]"
      using unfold None by simp
    show ?thesis
    proof (cases "P (- int (Suc w))")
      case True
      then have "find P (offsets (Suc w)) = Some (- int (Suc w))" using res by simp
      moreover have "search_rank (- int (Suc w)) \<le> search_rank d" using dd by auto
      ultimately show ?thesis using True by auto
    next
      case False
      then have d: "d = int (Suc w)" using dd Suc.prems(2) by auto
      then have "find P (offsets (Suc w)) = Some d" using res False Suc.prems(2) by simp
      then show ?thesis using Suc.prems by auto
    qed
  qed
qed

lemma find_offsets_none:
  "find P (offsets w) = None \<Longrightarrow> \<bar>d\<bar> \<le> int w \<Longrightarrow> \<not> P d"
  by (auto simp: find_None_iff set_offsets)

lemma search_rank_le_abs: "search_rank d' \<le> search_rank d \<Longrightarrow> \<bar>d'\<bar> \<le> \<bar>d\<bar>"
proof -
  assume "search_rank d' \<le> search_rank d"
  then have "int (search_rank d') \<le> int (search_rank d)" by simp
  then show ?thesis unfolding search_rank_int by (auto split: if_splits)
qed

lemma search_rank_inj: "search_rank d' = search_rank d \<Longrightarrow> d' = d"
proof -
  assume "search_rank d' = search_rank d"
  then have "int (search_rank d') = int (search_rank d)" by simp
  then show ?thesis unfolding search_rank_int by (auto split: if_splits) presburger+
qed

section \<open>The engine's cache\<close>

lemma getTOTP_cached: "totp eng = Some t \<Longrightarrow> getTOTP L c eng = Inr (t, eng)"
  by (simp add: getTOTP_def)

lemma getTOTP_result:
  "getTOTP L c eng = Inr (t, eng') \<Longrightarrow> totp eng' = Some t"
  by (auto simp: getTOTP_def split: option.splits sum.splits parsed.splits)

lemma js_trim_demo_uri: "js_trim demo_uri = demo_uri"
  by (simp add: js_trim_def demo_uri_def js_def is_space_def)

lemma js_trim_demo1_uri: "js_trim demo1_uri = demo1_uri"
  by (simp add: js_trim_def demo1_uri_def js_def is_space_def)

lemma demo_uri_nonempty: "demo_uri \<noteq> []" "demo1_uri \<noteq> []"
  by (simp_all add: demo_uri_def demo1_uri_def js_def)

lemma OTPAuth_simps:
  "URI_parse OTPAuth (Str s) = parse_uri s"
  "URI_parse OTPAuth Undefined = Inl MalformedConfigurationError"
  "URI_parse OTPAuth NonString = Inl MalformedConfigurationError"
  "generate OTPAuth t now ts = totp_code t (instant_or_now now ts)"
  "validate OTPAuth t now token w ts = window_search t token w (instant_or_now now ts)"
  by (simp_all add: OTPAuth_def)

lemma getTOTP_demo:
  "getTOTP OTPAuth c (fromUri demo_uri) = Inr (demo_spec, (fromUri demo_uri)\<lparr>totp := Some demo_spec\<rparr>)"
  by (simp add: getTOTP_def getUri_def fromUri_def js_trim_demo_uri demo_uri_nonempty
      OTPAuth_simps parse_demo_uri)

lemma getTOTP_demo1:
  "getTOTP OTPAuth c (fromUri demo1_uri) = Inr (demo1_spec, (fromUri demo1_uri)\<lparr>totp := Some demo1_spec\<rparr>)"
  by (simp add: getTOTP_def getUri_def fromUri_def js_trim_demo1_uri demo_uri_nonempty
      OTPAuth_simps parse_demo1_uri)

lemma window_search_wrong_length:
  "0 < digits t \<Longrightarrow> length token \<noteq> digits t \<Longrightarrow> window_search t token w ms = None"
  by (auto simp: window_search_def find_None_iff totp_code_def dest: length_hotp_code)

section \<open>Codes of the example configurations\<close>

lemma counter_demo:
  "counter demo_spec 0 = 0" "counter demo_spec 60000 = 2" "counter demo_spec 90000 = 3"
  "counter demo1_spec 60000 = 2" "counter demo1_spec 90000 = 3"
  by (simp_all add: counter_def unixSeconds_def demo_spec_def demo1_spec_def)

lemma totp_demo:
  "totp_code demo_spec 0 = js ''282760''"
  "totp_code demo_spec 60000 = js ''602287''"
  "totp_code demo_spec 90000 = js ''143627''"
  "totp_code demo1_spec 60000 = js ''7''"
  "totp_code demo1_spec 90000 = js ''7''"
  by (simp_all add: totp_code_def counter_demo hotp_demo_0 hotp_demo_2 hotp_demo_3
      hotp_demo1_2 hotp_demo1_3)

lemma js_codes_distinct:
  "js ''602287'' \<noteq> js ''143627''" "js ''602287'' \<noteq> js ''282760''" "js ''602287'' \<noteq> []"
  "js ''143627'' \<noteq> []" "js ''7'' \<noteq> []"
  by (simp_all add: js_def)

lemma normalizeToken_codes:
  "normalizeToken (js ''602287'') = js ''602287''"
  "normalizeToken (js ''143627'') = js ''143627''"
  "normalizeToken (js ''7'') = js ''7''"
  using normalizeToken_totp_code[of demo_spec 60000] normalizeToken_totp_code[of demo_spec 90000]
    normalizeToken_totp_code[of demo1_spec 60000]
  by (simp_all add: totp_demo)

lemma valid_demo: "valid_spec demo_spec" "valid_spec demo1_spec"
  by (simp_all add: valid_spec_def demo_spec_def demo1_spec_def demo_secret_def)

lemma parse_uri_valid: "parse_uri s = Inr (TOTP t) \<Longrightarrow> valid_spec t"
  by (auto simp: parse_uri_def build_spec_def valid_spec_def
      split: option.splits prod.splits if_splits)

section \<open>Token normalisation\<close>

lemma filter_dropWhile_neg:
  "filter (\<lambda>x. \<not> P x) (dropWhile P xs) = filter (\<lambda>x. \<not> P x) xs"
  by (induction xs) auto

lemma toAsciiDigits_space:
  "is_space (if 65296 \<le> d \<and> d \<le> 65305 then (d - 65296 + 48) mod 65536 else d) = is_space d"
  by (auto simp: is_space_def)

lemma filter_toAsciiDigits:
  "filter (\<lambda>c. \<not> is_space c) (toAsciiDigits s) = toAsciiDigits (filter (\<lambda>c. \<not> is_space c) s)"
  unfolding toAsciiDigits_def by (induction s) (auto simp: toAsciiDigits_space)

lemma filter_js_trim:
  "filter (\<lambda>c. \<not> is_space c) (js_trim s) = filter (\<lambda>c. \<not> is_space c) s"
proof -
  have "filter (\<lambda>c. \<not> is_space c) (js_trim s)
      = rev (filter (\<lambda>c. \<not> is_space c) (dropWhile is_space (rev (dropWhile is_space s))))"
    by (simp add: js_trim_def rev_filter)
  also have "\<dots> = rev (filter (\<lambda>c. \<not> is_space c) (rev (dropWhile is_space s)))"
    by (simp only: filter_dropWhile_neg)
  also have "\<dots> = filter (\<lambda>c. \<not> is_space c) (dropWhile is_space s)"
    by (simp add: rev_filter)
  finally show ?thesis by (simp only: filter_dropWhile_neg)
qed

lemma normalizeToken_refines: "normalizeToken s = normalize_spec s"
  by (simp add: normalizeToken_def normalize_spec_def filter_toAsciiDigits filter_js_trim)

lemma toUpperCase_Nil: "toUpperCase [] = []"
  by (simp add: toUpperCase_def)

lemma normalizeToken_single:
  "normalizeToken [c] =
     (if is_space c then []
      else toUpperCase [if 65296 \<le> c \<and> c \<le> 65305 then c - 65296 + 48 else c])"
proof -
  have "c \<le> 65305 \<Longrightarrow> (c - 65248) mod 65536 = c - 65248" by simp
  then show ?thesis
    using toAsciiDigits_space[of c]
    by (auto simp: normalizeToken_def toAsciiDigits_def toUpperCase_Nil)
qed

lemma is_space_set:
  "is_space c =
     (c \<in> {9, 10, 11, 12, 13, 32, 160, 5760, 8192, 8193, 8194, 8195, 8196, 8197, 8198, 8199,
            8200, 8201, 8202, 8232, 8233, 8239, 8287, 12288, 65279})"
proof -
  have "(8192 \<le> c \<and> c \<le> 8202) =
      (c \<in> {8192, 8193, 8194, 8195, 8196, 8197, 8198, 8199, 8200, 8201, 8202})"
    by (simp only: insert_iff empty_iff) presburger
  then show ?thesis unfolding is_space_def by (simp only: insert_iff empty_iff) blast
qed

lemma normalizeToken_empty_iff: "(normalizeToken [c] = []) = is_space c"
  by (simp add: normalizeToken_single toUpperCase_single_nonempty)

lemma normalizeToken_bmp:
  "normalizeToken (filter (\<lambda>c. c < 55296 \<or> 57343 < c) s) =
     concat (map (\<lambda>c. normalizeToken [c]) (filter (\<lambda>c. c < 55296 \<or> 57343 < c) s))"
proof -
  define t where "t = filter (\<lambda>c. \<not> is_space c) (toAsciiDigits (filter (\<lambda>c. c < 55296 \<or> 57343 < c) s))"
  have "list_all (\<lambda>c. c < 55296 \<or> 56319 < c) t"
    unfolding t_def toAsciiDigits_def by (induction s) auto
  then have "toUpperCase t = concat (map (\<lambda>c. toUpperCase [c]) t)"
    by (simp add: toUpperCase_no_high toUpperCase_single)
  also have "\<dots> = concat (map (\<lambda>c. normalizeToken [c]) (filter (\<lambda>c. c < 55296 \<or> 57343 < c) s))"
    unfolding t_def
  proof (induction s)
    case Nil
    show ?case by (simp add: toAsciiDigits_def)
  next
    case (Cons a s)
    have "a \<le> 65305 \<Longrightarrow> (a - 65248) mod 65536 = a - 65248" by simp
    then show ?case
      using Cons toAsciiDigits_space[of a]
      by (auto simp: toAsciiDigits_def normalizeToken_single)
  qed
  finally show ?thesis by (simp add: normalizeToken_def t_def)
qed

lemmas upper_eval =
  toUpperCase_def upper_cp_def encode_utf16_def in_upper_range_def special_upper_def
  upper_ranges_def

lemma normalizeToken_examples:
  "normalizeToken [65296, 65297, 65298, 65299, 65300, 65301, 65302, 65303, 65304, 65305] =
     js ''0123456789''"
  "normalizeToken (js ''abcdefghijklmnopqrstuvwxyz'') = js ''ABCDEFGHIJKLMNOPQRSTUVWXYZ''"
  "normalizeToken (js ''0123456789ABCDEFGHIJKLMNOPQRSTUVWXYZ+-./:=?@_'') =
     js ''0123456789ABCDEFGHIJKLMNOPQRSTUVWXYZ+-./:=?@_''"
  "normalizeToken [233, 223, 65345, 55297, 56360] = [201, 83, 83, 65313, 55297, 56320]"
  "normalizeToken [49, 9, 50, 12288, 65299, 32, 97] = js ''123A''"
  by (simp_all add: normalizeToken_def toAsciiDigits_def is_space_def js_def upper_eval)

lemma normalizeToken_padded_example:
  "normalizeToken (js '' 123456 '') = normalizeToken (js ''123456'')"
  by (simp add: js_def normalizeToken_def toAsciiDigits_def is_space_def)

lemma normalizeToken_plain:
  assumes "list_all (\<lambda>c. c < 128 \<or> (65296 \<le> c \<and> c \<le> 65305) \<or> is_space c) s"
  shows "normalizeToken s =
     map (\<lambda>c. if 97 \<le> c \<and> c \<le> 122 then c - 32 else if 65296 \<le> c then c - 65248 else c)
       (filter (\<lambda>c. \<not> is_space c) s)"
proof -
  define D where "D = (\<lambda>d::nat. if 65296 \<le> d \<and> d \<le> 65305 then (d - 65296 + 48) mod 65536 else d)"
  define r where "r = filter (\<lambda>c. \<not> is_space c) s"
  have r: "list_all (\<lambda>c. c < 128 \<or> (65296 \<le> c \<and> c \<le> 65305)) r"
    using assms unfolding r_def by (induction s) auto
  have "filter (\<lambda>c. \<not> is_space c) (toAsciiDigits s) = map D r"
    unfolding r_def D_def using filter_toAsciiDigits[of s] by (simp add: toAsciiDigits_def)
  moreover have "list_all (\<lambda>c. c < 128) (map D r)"
    using r unfolding D_def by (induction r) auto
  ultimately have "normalizeToken s = map (\<lambda>c. if 97 \<le> c \<and> c \<le> 122 then c - 32 else c) (map D r)"
    by (simp add: normalizeToken_def toUpperCase_ascii)
  also have "\<dots> = map (\<lambda>c. if 97 \<le> c \<and> c \<le> 122 then c - 32
                              else if 65296 \<le> c then c - 65248 else c) r"
    using r unfolding D_def by (induction r) auto
  finally show ?thesis unfolding r_def .
qed

text \<open>
  Claim C7.  The token normaliser is a total function on strings: it has no error result,
  and the theorem gives its value.  It computes what the specification describes (trimming,
  conversion of full-width digits, removal of all whitespace, upper-casing); the trimming
  step is subsumed by the removal of all whitespace, which is why the source has none.
  The steps are pinned down without reference to the helper functions: a single character
  is erased exactly when it is one of the 25 whitespace code units of ECMAScript; on a
  string of ASCII characters, full-width digits and whitespace the result is the string
  without its whitespace, each lower-case letter replaced by its capital and each
  full-width digit by its ASCII digit; the full-width digits give \<^verbatim>\<open>0123456789\<close>; digits,
  capitals and punctuation are left alone; letters outside ASCII are upper-cased by
  the Unicode mapping, which can lengthen the string (U+00DF gives \<^verbatim>\<open>SS\<close>) and works on
  surrogate pairs (U+10428 gives U+10400); and on a string without surrogates the
  normaliser works character by character.  Consequently, for every library,
  configuration state, window and instant, validating the candidate \<^verbatim>\<open>" 123456 "\<close> gives
  the same outcome (result or error, and engine state) as validating \<^verbatim>\<open>"123456"\<close>.
\<close>

theorem normalizeToken_total_and_padding:
  "normalizeToken s = normalize_spec s
   \<and> (normalizeToken [c] = []) =
       (c \<in> {9, 10, 11, 12, 13, 32, 160, 5760, 8192, 8193, 8194, 8195, 8196, 8197, 8198, 8199,
              8200, 8201, 8202, 8232, 8233, 8239, 8287, 12288, 65279})
   \<and> (list_all (\<lambda>c. c < 128 \<or> (65296 \<le> c \<and> c \<le> 65305) \<or>
          c \<in> {9, 10, 11, 12, 13, 32, 160, 5760, 8192, 8193, 8194, 8195, 8196, 8197, 8198, 8199,
              8200, 8201, 8202, 8232, 8233, 8239, 8287, 12288, 65279}) u \<longrightarrow>
        normalizeToken u =
          map (\<lambda>c. if 97 \<le> c \<and> c \<le> 122 then c - 32 else if 65296 \<le> c then c - 65248 else c)
            (filter (\<lambda>c. c \<notin> {9, 10, 11, 12, 13, 32, 160, 5760, 8192, 8193, 8194, 8195, 8196, 8197, 8198, 8199,
              8200, 8201, 8202, 8232, 8233, 8239, 8287, 12288, 65279}) u))
   \<and> normalizeToken [65296, 65297, 65298, 65299, 65300, 65301, 65302, 65303, 65304, 65305] =
       js ''0123456789''
   \<and> normalizeToken (js ''abcdefghijklmnopqrstuvwxyz'') = js ''ABCDEFGHIJKLMNOPQRSTUVWXYZ''
   \<and> normalizeToken (js ''0123456789ABCDEFGHIJKLMNOPQRSTUVWXYZ+-./:=?@_'') =
       js ''0123456789ABCDEFGHIJKLMNOPQRSTUVWXYZ+-./:=?@_''
   \<and> normalizeToken [233, 223, 65345, 55297, 56360] = [201, 83, 83, 65313, 55297, 56320]
   \<and> normalizeToken [49, 9, 50, 12288, 65299, 32, 97] = js ''123A''
   \<and> normalizeToken (filter (\<lambda>c. c < 55296 \<or> 57343 < c) t) =
       concat (map (\<lambda>c. normalizeToken [c]) (filter (\<lambda>c. c < 55296 \<or> 57343 < c) t))
   \<and> verify L e now eng (js '' 123456 '') w ts = verify L e now eng (js ''123456'') w ts"
proof -
  have ne: "js '' 123456 '' \<noteq> []" "js ''123456'' \<noteq> []" by (simp_all add: js_def)
  have v: "verify L e now eng (js '' 123456 '') w ts = verify L e now eng (js ''123456'') w ts"
    by (simp add: verify_def ne normalizeToken_padded_example split: sum.split prod.split)
  have sp: "(normalizeToken [c] = []) =
       (c \<in> {9, 10, 11, 12, 13, 32, 160, 5760, 8192, 8193, 8194, 8195, 8196, 8197, 8198, 8199,
              8200, 8201, 8202, 8232, 8233, 8239, 8287, 12288, 65279})"
    by (simp only: normalizeToken_empty_iff is_space_set)
  have pl: "list_all (\<lambda>c. c < 128 \<or> (65296 \<le> c \<and> c \<le> 65305) \<or>
          c \<in> {9, 10, 11, 12, 13, 32, 160, 5760, 8192, 8193, 8194, 8195, 8196, 8197, 8198, 8199,
              8200, 8201, 8202, 8232, 8233, 8239, 8287, 12288, 65279}) u \<longrightarrow>
        normalizeToken u =
          map (\<lambda>c. if 97 \<le> c \<and> c \<le> 122 then c - 32 else if 65296 \<le> c then c - 65248 else c)
            (filter (\<lambda>c. c \<notin> {9, 10, 11, 12, 13, 32, 160, 5760, 8192, 8193, 8194, 8195, 8196, 8197, 8198, 8199,
              8200, 8201, 8202, 8232, 8233, 8239, 8287, 12288, 65279}) u)"
    using normalizeToken_plain[of u] by (simp only: is_space_set) blast
  show ?thesis
    using normalizeToken_refines[of s] sp pl normalizeToken_examples normalizeToken_bmp[of t] v
    by (intro conjI)
qed

text \<open>
  Witness for C7: the string of a space, the letter \<^verbatim>\<open>a\<close>, a no-break space, the
  full-width digit one and the digit 7 normalises to \<^verbatim>\<open>A17\<close>.
\<close>

theorem normalizeToken_total_and_padding_witness:
  "list_all (\<lambda>c. c < 128 \<or> (65296 \<le> c \<and> c \<le> 65305) \<or>
          c \<in> {9, 10, 11, 12, 13, 32, 160, 5760, 8192, 8193, 8194, 8195, 8196, 8197, 8198, 8199,
              8200, 8201, 8202, 8232, 8233, 8239, 8287, 12288, 65279}) [32, 97, 160, 65297, 55 :: nat]
   \<and> normalizeToken [32, 97, 160, 65297, 55] = js ''A17''"
  using normalizeToken_total_and_padding[of _ _ "[32, 97, 160, 65297, 55]",
      THEN conjunct2, THEN conjunct2, THEN conjunct1]
  by (simp add: js_def)

section \<open>The timestamp 0\<close>

text \<open>
  Claim C10.  Calling \<open>getCode\<close> with the explicit timestamp 0 (the Unix epoch) takes
  the branch of an omitted timestamp: it returns exactly what \<open>getCode\<close> without a
  timestamp returns, the code the library generates for the current time, and not the
  code for instant 0.
\<close>

theorem getCode_zero_timestamp_uses_clock:
  "getCode L c now eng (Some 0) = getCode L c now eng None \<and>
   getCode L c now eng (Some 0) =
     (case getTOTP L c eng of Inl err \<Rightarrow> Inl err
      | Inr (t, eng') \<Rightarrow> Inr (generate L t now None, eng'))"
  by (simp add: getCode_def split: sum.split prod.split)

section \<open>Resolving the provisioning source\<close>

text \<open>
  The snapshot of the environment is a plain object, so a key that no variable binds but
  every object inherits (\<^verbatim>\<open>toString\<close>, \<^verbatim>\<open>constructor\<close>, ...) reads as a function: it
  passes the test for a missing variable, and trimming it raises a \<open>TypeError\<close>.
\<close>

lemma getUri_inherited_key:
  "getUri Map.empty (fromEnv (js ''toString'') :: 't otp) = Inl TrimIsNotAFunction"
  by (simp add: getUri_def fromEnv_def Env_getString_def Env_get_def cache_lookup_def
      object_prototype_keys_def js_def)




section \<open>The guard of verify\<close>

text \<open>
  Claim C4, as stated, fails.  For the whitespace-only candidate \<^verbatim>\<open>" "\<close> the
  normalised token is empty, yet \<open>verify\<close> does not reject it with the reason for an
  empty code: its guard tests the candidate before normalisation, the empty token goes
  to the library's validation, and the result carries the reason of an ordinary
  mismatch.
\<close>

theorem verify_blank_candidate_counterexample:
  "normalizeToken (js '' '') = []
   \<and> verify OTPAuth Map.empty 60000 (fromUri demo_uri) (js '' '') (Some 1) (Some 60000) =
       Inr (\<lparr>ok = False, delta = None, reason = Some ''Invalid or out-of-window token''\<rparr>,
            (fromUri demo_uri)\<lparr>totp := Some demo_spec\<rparr>)"
proof -
  have n: "normalizeToken (js '' '') = []" "js '' '' \<noteq> []"
    by (simp_all add: normalizeToken_def toAsciiDigits_def upper_eval is_space_def js_def)
  have "window_search demo_spec [] 1 60000 = None"
    by (rule window_search_wrong_length) (simp_all add: demo_spec_def)
  then show ?thesis
    by (simp add: verify_def getTOTP_demo n OTPAuth_simps instant_or_now_def)
qed

text \<open>
  Claim C4, as amended.  Once the configuration is resolved, \<open>verify\<close> returns at once
  with \<open>ok = False\<close>, no delta and the reason \<^verbatim>\<open>Empty or non-string code\<close> when the
  candidate itself is the empty string, and only then.  Every other candidate, also one
  whose normalisation is empty or not numeric, is normalised and handed to the
  library's validation: the delta is the library's answer, \<open>ok\<close> says whether there is
  one, and without one the reason is \<^verbatim>\<open>Invalid or out-of-window token\<close>.  This holds
  for every library.
\<close>

theorem verify_guard:
  "getTOTP L c eng = Inr (t, eng') \<Longrightarrow>
     verify L c now eng [] w ts =
       Inr (\<lparr>ok = False, delta = None, reason = Some ''Empty or non-string code''\<rparr>, eng')
     \<and> (code \<noteq> [] \<longrightarrow>
          (\<exists>r. verify L c now eng code w ts = Inr (r, eng')
               \<and> reason r \<noteq> Some ''Empty or non-string code''
               \<and> delta r = validate L t now (normalizeToken code) (case w of None \<Rightarrow> 1 | Some n \<Rightarrow> n) ts
               \<and> ok r = (delta r \<noteq> None)
               \<and> (delta r = None \<longrightarrow> reason r = Some ''Invalid or out-of-window token'')))"
  by (simp add: verify_def Let_def)

text \<open>
  Witness for C4: the empty candidate and the candidate \<^verbatim>\<open>"12 ab"\<close> against the example
  configuration.
\<close>

theorem verify_guard_witness:
  "getTOTP OTPAuth Map.empty (fromUri demo_uri) = Inr (demo_spec, (fromUri demo_uri)\<lparr>totp := Some demo_spec\<rparr>)
   \<and> js ''12 ab'' \<noteq> []
   \<and> verify OTPAuth Map.empty 0 (fromUri demo_uri) [] None None =
       Inr (\<lparr>ok = False, delta = None, reason = Some ''Empty or non-string code''\<rparr>,
            (fromUri demo_uri)\<lparr>totp := Some demo_spec\<rparr>)
   \<and> verify OTPAuth Map.empty 0 (fromUri demo_uri) (js ''12 ab'') None None =
       Inr (\<lparr>ok = False, delta = None, reason = Some ''Invalid or out-of-window token''\<rparr>,
            (fromUri demo_uri)\<lparr>totp := Some demo_spec\<rparr>)"
proof -
  have n: "normalizeToken (js ''12 ab'') = js ''12AB''" "js ''12 ab'' \<noteq> []"
    by (simp_all add: normalizeToken_def toAsciiDigits_def upper_eval is_space_def js_def)
  have ws: "window_search demo_spec (js ''12AB'') w ms = None" for w ms
    by (rule window_search_wrong_length) (simp_all add: demo_spec_def js_def)
  have v: "validate OTPAuth demo_spec 0 (normalizeToken (js ''12 ab'')) 1 None = None"
    by (simp add: OTPAuth_simps instant_or_now_def n ws)
  from verify_guard[OF getTOTP_demo, of Map.empty 0 None None "js ''12 ab''"] v n(2)
  obtain r where r: "verify OTPAuth Map.empty 0 (fromUri demo_uri) (js ''12 ab'') None None
        = Inr (r, (fromUri demo_uri)\<lparr>totp := Some demo_spec\<rparr>)"
      "delta r = None" "ok r = False" "reason r = Some ''Invalid or out-of-window token''"
    by auto
  then have "r = \<lparr>ok = False, delta = None, reason = Some ''Invalid or out-of-window token''\<rparr>"
    by (cases r) simp
  with r(1) verify_guard[OF getTOTP_demo, of Map.empty 0 None None] getTOTP_demo n(2)
  show ?thesis by simp
qed

section \<open>The window\<close>

text \<open>
  Claim C6, as stated, fails in three ways, shown at the instant 60000 ms with period 30
  and \<open>d = 1\<close>.  With window 0 the rejection carries the reason
  \<^verbatim>\<open>Invalid or out-of-window token\<close>, not \<^verbatim>\<open>no match within window\<close>.  With 1-digit
  codes the steps 2 and 3 have the same code \<^verbatim>\<open>7\<close>: with window 1 the reported delta is
  0, not 1, and with window 0 the candidate of the step outside the window is accepted.
\<close>

theorem verify_window_counterexample:
  "getCode OTPAuth Map.empty 0 (fromUri demo_uri) (Some (60000 + 1 * (30 * 1000))) =
     Inr (js ''143627'', (fromUri demo_uri)\<lparr>totp := Some demo_spec\<rparr>)
   \<and> verify OTPAuth Map.empty 0 ((fromUri demo_uri)\<lparr>totp := Some demo_spec\<rparr>)
         (js ''143627'') (Some 0) (Some 60000) =
       Inr (\<lparr>ok = False, delta = None, reason = Some ''Invalid or out-of-window token''\<rparr>,
            (fromUri demo_uri)\<lparr>totp := Some demo_spec\<rparr>)
   \<and> getCode OTPAuth Map.empty 0 (fromUri demo1_uri) (Some (60000 + 1 * (30 * 1000))) =
       Inr (js ''7'', (fromUri demo1_uri)\<lparr>totp := Some demo1_spec\<rparr>)
   \<and> verify OTPAuth Map.empty 0 ((fromUri demo1_uri)\<lparr>totp := Some demo1_spec\<rparr>)
         (js ''7'') (Some 1) (Some 60000) =
       Inr (\<lparr>ok = True, delta = Some 0, reason = None\<rparr>,
            (fromUri demo1_uri)\<lparr>totp := Some demo1_spec\<rparr>)
   \<and> verify OTPAuth Map.empty 0 ((fromUri demo1_uri)\<lparr>totp := Some demo1_spec\<rparr>)
         (js ''7'') (Some 0) (Some 60000) =
       Inr (\<lparr>ok = True, delta = Some 0, reason = None\<rparr>,
            (fromUri demo1_uri)\<lparr>totp := Some demo1_spec\<rparr>)"
proof -
  have c: "getTOTP OTPAuth Map.empty ((fromUri demo_uri)\<lparr>totp := Some demo_spec\<rparr>)
      = Inr (demo_spec, (fromUri demo_uri)\<lparr>totp := Some demo_spec\<rparr>)"
    "getTOTP OTPAuth Map.empty ((fromUri demo1_uri)\<lparr>totp := Some demo1_spec\<rparr>)
      = Inr (demo1_spec, (fromUri demo1_uri)\<lparr>totp := Some demo1_spec\<rparr>)"
    by (simp_all add: getTOTP_cached)
  have g: "getCode OTPAuth Map.empty 0 (fromUri demo_uri) (Some (60000 + 1 * (30 * 1000))) =
     Inr (js ''143627'', (fromUri demo_uri)\<lparr>totp := Some demo_spec\<rparr>)"
    "getCode OTPAuth Map.empty 0 (fromUri demo1_uri) (Some (60000 + 1 * (30 * 1000))) =
       Inr (js ''7'', (fromUri demo1_uri)\<lparr>totp := Some demo1_spec\<rparr>)"
    by (simp_all add: getCode_def getTOTP_demo getTOTP_demo1 OTPAuth_simps instant_or_now_def totp_demo)
  have w: "window_search demo_spec (js ''143627'') 0 60000 = None"
    "window_search demo1_spec (js ''7'') (Suc 0) 60000 = Some 0"
    "window_search demo1_spec (js ''7'') 0 60000 = Some 0"
    by (simp_all add: window_search_def totp_demo js_codes_distinct)
  have v: "verify OTPAuth Map.empty 0 ((fromUri demo_uri)\<lparr>totp := Some demo_spec\<rparr>)
         (js ''143627'') (Some 0) (Some 60000) =
       Inr (\<lparr>ok = False, delta = None, reason = Some ''Invalid or out-of-window token''\<rparr>,
            (fromUri demo_uri)\<lparr>totp := Some demo_spec\<rparr>)"
    by (simp add: verify_def c js_codes_distinct normalizeToken_codes OTPAuth_simps
        instant_or_now_def w)
  have v1: "verify OTPAuth Map.empty 0 ((fromUri demo1_uri)\<lparr>totp := Some demo1_spec\<rparr>)
         (js ''7'') (Some 1) (Some 60000) =
       Inr (\<lparr>ok = True, delta = Some 0, reason = None\<rparr>,
            (fromUri demo1_uri)\<lparr>totp := Some demo1_spec\<rparr>)"
    "verify OTPAuth Map.empty 0 ((fromUri demo1_uri)\<lparr>totp := Some demo1_spec\<rparr>)
         (js ''7'') (Some 0) (Some 60000) =
       Inr (\<lparr>ok = True, delta = Some 0, reason = None\<rparr>,
            (fromUri demo1_uri)\<lparr>totp := Some demo1_spec\<rparr>)"
    by (simp_all add: verify_def c js_codes_distinct normalizeToken_codes OTPAuth_simps
        instant_or_now_def w)
  show ?thesis using g v v1 by simp
qed

text \<open>
  Claim C6, as amended.  Let the configuration be valid, and let the instant
  \<open>ts + d * period\<close> passed to \<open>getCode\<close> be different from 0.  Then \<open>getCode\<close> returns
  the code of that instant.  If \<open>\<bar>d\<bar> \<le> window\<close>, validating that code at the instant
  \<open>ts\<close> returns \<open>ok = True\<close> with a delta \<open>d'\<close> whose step has the same code and which is
  not later than \<open>d\<close> in the search order 0, -1, +1, -2, +2, ... (so \<open>\<bar>d'\<bar> \<le> \<bar>d\<bar>\<close>), and
  \<open>d' = d\<close> when no earlier offset has the same code.  If no offset within the window
  has the same code, the result is \<open>ok = False\<close>, no delta and the reason
  \<^verbatim>\<open>Invalid or out-of-window token\<close>.
\<close>

theorem verify_window_tolerance:
  assumes g: "getTOTP OTPAuth c eng = Inr (t, eng')"
    and v: "valid_spec t"
    and nz: "ts + d * (int (period t) * 1000) \<noteq> 0"
  shows
   "getCode OTPAuth c now eng (Some (ts + d * (int (period t) * 1000))) =
      Inr (totp_code t (ts + d * (int (period t) * 1000)), eng')
    \<and> (\<bar>d\<bar> \<le> int w \<longrightarrow>
         (\<exists>d'. verify OTPAuth c now eng' (totp_code t (ts + d * (int (period t) * 1000)))
                  (Some w) (Some ts) =
                Inr (\<lparr>ok = True, delta = Some d', reason = None\<rparr>, eng')
              \<and> totp_code t (ts + d' * (int (period t) * 1000)) =
                  totp_code t (ts + d * (int (period t) * 1000))
              \<and> search_rank d' \<le> search_rank d \<and> \<bar>d'\<bar> \<le> \<bar>d\<bar>
              \<and> ((\<forall>e. search_rank e < search_rank d \<longrightarrow>
                      totp_code t (ts + e * (int (period t) * 1000)) \<noteq>
                      totp_code t (ts + d * (int (period t) * 1000))) \<longrightarrow> d' = d)))
    \<and> ((\<forall>e. \<bar>e\<bar> \<le> int w \<longrightarrow>
            totp_code t (ts + e * (int (period t) * 1000)) \<noteq>
            totp_code t (ts + d * (int (period t) * 1000))) \<longrightarrow>
         verify OTPAuth c now eng' (totp_code t (ts + d * (int (period t) * 1000)))
           (Some w) (Some ts) =
         Inr (\<lparr>ok = False, delta = None,
               reason = Some ''Invalid or out-of-window token''\<rparr>, eng'))"
proof -
  define P where "P = int (period t) * 1000"
  define code where "code = totp_code t (ts + d * P)"
  have cached: "getTOTP OTPAuth c eng' = Inr (t, eng')"
    using getTOTP_result[OF g] by (rule getTOTP_cached)
  have "length code = digits t"
    using v by (simp add: code_def totp_code_def length_hotp_code valid_spec_def)
  then have ne: "code \<noteq> []" using v by (auto simp: valid_spec_def)
  have norm: "normalizeToken code = code" by (simp add: code_def normalizeToken_totp_code)
  have ver: "verify OTPAuth c now eng' code (Some w) (Some ts) =
      Inr (\<lparr>ok = (window_search t code w ts \<noteq> None), delta = window_search t code w ts,
            reason = (if window_search t code w ts = None
                      then Some ''Invalid or out-of-window token'' else None)\<rparr>, eng')"
    by (auto simp: verify_def cached ne norm OTPAuth_simps instant_or_now_def Let_def)
  have ws: "window_search t code w ts = find (\<lambda>e. totp_code t (ts + e * P) = code) (offsets w)"
    by (simp add: window_search_def P_def)
  have part1: "getCode OTPAuth c now eng (Some (ts + d * P)) = Inr (code, eng')"
    using nz by (simp add: getCode_def g OTPAuth_simps instant_or_now_def code_def P_def)
  have part2: "\<exists>d'. verify OTPAuth c now eng' code (Some w) (Some ts) =
                Inr (\<lparr>ok = True, delta = Some d', reason = None\<rparr>, eng')
              \<and> totp_code t (ts + d' * P) = code
              \<and> search_rank d' \<le> search_rank d \<and> \<bar>d'\<bar> \<le> \<bar>d\<bar>
              \<and> ((\<forall>e. search_rank e < search_rank d \<longrightarrow> totp_code t (ts + e * P) \<noteq> code)
                   \<longrightarrow> d' = d)"
    if inw: "\<bar>d\<bar> \<le> int w"
  proof -
    have "d \<in> set (offsets w)" using inw by (simp add: set_offsets)
    moreover have "totp_code t (ts + d * P) = code" by (simp add: code_def)
    ultimately obtain d' where d': "find (\<lambda>e. totp_code t (ts + e * P) = code) (offsets w) = Some d'"
        "totp_code t (ts + d' * P) = code" "search_rank d' \<le> search_rank d"
      using find_offsets_first[of d w "\<lambda>e. totp_code t (ts + e * P) = code"] by blast
    have "d' = d" if "\<forall>e. search_rank e < search_rank d \<longrightarrow> totp_code t (ts + e * P) \<noteq> code"
    proof -
      from that d'(2) have "\<not> search_rank d' < search_rank d" by blast
      with d'(3) have "search_rank d' = search_rank d" by simp
      then show ?thesis by (rule search_rank_inj)
    qed
    moreover have "\<bar>d'\<bar> \<le> \<bar>d\<bar>" using d'(3) by (rule search_rank_le_abs)
    moreover have "verify OTPAuth c now eng' code (Some w) (Some ts) =
                Inr (\<lparr>ok = True, delta = Some d', reason = None\<rparr>, eng')"
      by (simp add: ver ws d'(1))
    ultimately show ?thesis using d'(2,3) by blast
  qed
  have part3: "verify OTPAuth c now eng' code (Some w) (Some ts) =
         Inr (\<lparr>ok = False, delta = None,
               reason = Some ''Invalid or out-of-window token''\<rparr>, eng')"
    if none: "\<forall>e. \<bar>e\<bar> \<le> int w \<longrightarrow> totp_code t (ts + e * P) \<noteq> code"
  proof -
    have "find (\<lambda>e. totp_code t (ts + e * P) = code) (offsets w) = None"
      using none by (simp add: find_None_iff set_offsets)
    then show ?thesis by (simp add: ver ws)
  qed
  show ?thesis
    using part1 part2 part3 unfolding code_def P_def by blast
qed

text \<open>
  Witness for C6: the example configuration at the instant 60000 ms with window 0, for
  \<open>d = 0\<close> (accepted with delta 0) and for \<open>d = 1\<close> (rejected).
\<close>

theorem verify_window_tolerance_witness:
  "getTOTP OTPAuth Map.empty (fromUri demo_uri) =
     Inr (demo_spec, (fromUri demo_uri)\<lparr>totp := Some demo_spec\<rparr>)
   \<and> valid_spec demo_spec
   \<and> (60000 :: int) + 0 * (int (period demo_spec) * 1000) \<noteq> 0
   \<and> (60000 :: int) + 1 * (int (period demo_spec) * 1000) \<noteq> 0
   \<and> getCode OTPAuth Map.empty 0 (fromUri demo_uri) (Some 60000) =
       Inr (js ''602287'', (fromUri demo_uri)\<lparr>totp := Some demo_spec\<rparr>)
   \<and> verify OTPAuth Map.empty 0 ((fromUri demo_uri)\<lparr>totp := Some demo_spec\<rparr>)
         (js ''602287'') (Some 0) (Some 60000) =
       Inr (\<lparr>ok = True, delta = Some 0, reason = None\<rparr>,
            (fromUri demo_uri)\<lparr>totp := Some demo_spec\<rparr>)
   \<and> verify OTPAuth Map.empty 0 ((fromUri demo_uri)\<lparr>totp := Some demo_spec\<rparr>)
         (js ''143627'') (Some 0) (Some 60000) =
       Inr (\<lparr>ok = False, delta = None, reason = Some ''Invalid or out-of-window token''\<rparr>,
            (fromUri demo_uri)\<lparr>totp := Some demo_spec\<rparr>)"
proof -
  have p: "int (period demo_spec) * 1000 = 30000" by (simp add: demo_spec_def)
  have i0: "(60000 :: int) + 0 * (int (period demo_spec) * 1000) \<noteq> 0"
    and i1: "(60000 :: int) + 1 * (int (period demo_spec) * 1000) \<noteq> 0"
    by (simp_all add: p)
  note a = verify_window_tolerance[OF getTOTP_demo valid_demo(1) i0, of Map.empty 0 0]
  note b = verify_window_tolerance[OF getTOTP_demo valid_demo(1) i1, of Map.empty 0 0]
  have a1: "getCode OTPAuth Map.empty 0 (fromUri demo_uri) (Some 60000) =
       Inr (js ''602287'', (fromUri demo_uri)\<lparr>totp := Some demo_spec\<rparr>)"
    using a by (simp add: totp_demo)
  have a2: "verify OTPAuth Map.empty 0 ((fromUri demo_uri)\<lparr>totp := Some demo_spec\<rparr>)
         (js ''602287'') (Some 0) (Some 60000) =
       Inr (\<lparr>ok = True, delta = Some 0, reason = None\<rparr>,
            (fromUri demo_uri)\<lparr>totp := Some demo_spec\<rparr>)"
    using a by (auto simp: totp_demo)
  have b2: "verify OTPAuth Map.empty 0 ((fromUri demo_uri)\<lparr>totp := Some demo_spec\<rparr>)
         (js ''143627'') (Some 0) (Some 60000) =
       Inr (\<lparr>ok = False, delta = None, reason = Some ''Invalid or out-of-window token''\<rparr>,
            (fromUri demo_uri)\<lparr>totp := Some demo_spec\<rparr>)"
    using b by (simp add: p totp_demo js_codes_distinct)
  show ?thesis using getTOTP_demo valid_demo(1) i0 i1 a1 a2 b2 by simp
qed

section \<open>A malformed secret\<close>

text \<open>
  The decoder rejects exactly the secrets whose alphabet or padding is malformed in the
  sense of the two predicates that follow the specification's words.
\<close>

lemma b32_value_None: "(b32_value c = None) = (\<not> (65 \<le> c \<and> c \<le> 90) \<and> \<not> (50 \<le> c \<and> c \<le> 55))"
  by (auto simp: b32_value_def)

lemma body_pad: "takeWhile (\<lambda>c. c \<noteq> (61::nat)) s @ drop (length (takeWhile (\<lambda>c. c \<noteq> 61) s)) s = s"
  by (metis takeWhile_dropWhile_id dropWhile_eq_drop)

lemma body_no_pad: "list_all (\<lambda>c. c \<noteq> (61::nat)) (takeWhile (\<lambda>c. c \<noteq> 61) s)"
  by (induction s) auto

lemma takeWhile_rev_none: "list_all (\<lambda>c. \<not> P c) xs \<Longrightarrow> takeWhile P (rev xs) = []"
  by (cases xs rule: rev_cases) auto

lemma trailing_run:
  assumes "list_all (\<lambda>c. c \<noteq> (61::nat)) body" and "list_all (\<lambda>c. c = 61) pad"
  shows "length (takeWhile (\<lambda>c. c = 61) (rev (body @ pad))) = length pad"
proof -
  have "takeWhile (\<lambda>c. c = 61) (rev pad @ rev body) = rev pad @ takeWhile (\<lambda>c. c = 61) (rev body)"
    using assms(2) by (intro takeWhile_append2) (auto simp: list_all_iff)
  moreover have "takeWhile (\<lambda>c. c = 61) (rev body) = []"
    using assms(1) by (intro takeWhile_rev_none) (auto simp: list_all_iff)
  ultimately show ?thesis by simp
qed

lemma base32_decode_malformed:
  assumes "malformed_alphabet s \<or> malformed_padding s"
  shows "base32_decode s = None"
proof (rule ccontr)
  assume "base32_decode s \<noteq> None"
  define body where "body = takeWhile (\<lambda>c. c \<noteq> 61) s"
  define pad where "pad = drop (length body) s"
  from \<open>base32_decode s \<noteq> None\<close>
  have A: "list_all (\<lambda>c. b32_value c \<noteq> None) body"
    and B: "list_all (\<lambda>c. c = 61) pad"
    and C: "length body mod 8 \<in> {0, 2, 4, 5, 7}"
    and D: "pad = [] \<or> (length pad < 8 \<and> length s mod 8 = 0)"
    unfolding base32_decode_def body_def pad_def Let_def by (auto split: if_splits)
  have s: "s = body @ pad" unfolding body_def pad_def by (simp add: body_pad)
  have nb: "list_all (\<lambda>c. c \<noteq> 61) body" unfolding body_def by (rule body_no_pad)
  have n: "length (takeWhile (\<lambda>c. c = 61) (rev s)) = length pad"
    unfolding s using nb B by (rule trailing_run)
  have m: "length s - length pad = length body" by (simp add: s)
  from assms show False
  proof
    assume "malformed_alphabet s"
    then obtain c where c: "c \<in> set s" "c \<noteq> 61" "b32_value c = None"
      by (auto simp: malformed_alphabet_def list_ex_iff b32_value_None)
    then have "c \<in> set body \<or> c \<in> set pad" using s by auto
    then show False using A B c by (auto simp: list_all_iff)
  next
    assume "malformed_padding s"
    then have "list_ex (\<lambda>c. c = 61) body \<or> length body mod 8 \<in> {1, 3, 6}
        \<or> (0 < length pad \<and> (8 \<le> length pad \<or> 0 < length s mod 8))"
      unfolding malformed_padding_def Let_def n m by (simp add: s)
    then show False
    proof (elim disjE)
      assume "list_ex (\<lambda>c. c = 61) body"
      then show False using nb by (auto simp: list_ex_iff list_all_iff)
    next
      assume "length body mod 8 \<in> {1, 3, 6}"
      then show False using C by auto
    next
      assume "0 < length pad \<and> (8 \<le> length pad \<or> 0 < length s mod 8)"
      then show False using D by auto
    qed
  qed
qed






lemma pad_starts_with_eq:
  "drop (length (takeWhile (\<lambda>c. c \<noteq> (61::nat)) s)) s = [] \<or>
   (\<exists>p. drop (length (takeWhile (\<lambda>c. c \<noteq> 61) s)) s = 61 # p)"
proof -
  have "drop (length (takeWhile (\<lambda>c. c \<noteq> (61::nat)) s)) s = dropWhile (\<lambda>c. c \<noteq> 61) s"
    by (simp add: dropWhile_eq_drop)
  moreover have "dropWhile (\<lambda>c. c \<noteq> (61::nat)) s = [] \<or> (\<exists>p. dropWhile (\<lambda>c. c \<noteq> 61) s = 61 # p)"
    by (induction s) auto
  ultimately show ?thesis by simp
qed

lemma takeWhile_short: "\<not> list_all P xs \<Longrightarrow> length (takeWhile P xs) < length xs"
  by (induction xs) auto

lemma base32_decode_None_malformed:
  assumes "base32_decode s = None"
  shows "malformed_alphabet s \<or> malformed_padding s"
proof -
  define body where "body = takeWhile (\<lambda>c. c \<noteq> 61) s"
  define pad where "pad = drop (length body) s"
  have s: "s = body @ pad" unfolding body_def pad_def by (simp add: body_pad)
  have nb: "list_all (\<lambda>c. c \<noteq> 61) body" unfolding body_def by (rule body_no_pad)
  from assms have "\<not> list_all (\<lambda>c. b32_value c \<noteq> None) body \<or> \<not> list_all (\<lambda>c. c = 61) pad
      \<or> (list_all (\<lambda>c. c = 61) pad \<and> length body mod 8 \<notin> {0, 2, 4, 5, 7})
      \<or> (list_all (\<lambda>c. c = 61) pad \<and> pad \<noteq> [] \<and> \<not> (length pad < 8 \<and> length s mod 8 = 0))"
    unfolding base32_decode_def body_def pad_def Let_def by (auto split: if_splits)
  then show ?thesis
  proof (elim disjE)
    assume "\<not> list_all (\<lambda>c. b32_value c \<noteq> None) body"
    then obtain c where "c \<in> set body" "b32_value c = None" by (auto simp: list_all_iff)
    then have "c \<in> set s" "c \<noteq> 61" "b32_value c = None" using nb s by (auto simp: list_all_iff)
    then show ?thesis by (auto simp: malformed_alphabet_def list_ex_iff b32_value_None)
  next
    assume nB: "\<not> list_all (\<lambda>c. c = 61) pad"
    then have "pad \<noteq> []" by auto
    then obtain p where p: "pad = 61 # p"
      using pad_starts_with_eq[of s] unfolding pad_def body_def by auto
    with nB have np: "\<not> list_all (\<lambda>c. c = 61) (rev p)" by (simp add: list_all_iff)
    then obtain x where x: "x \<in> set (rev p)" "\<not> x = 61" by (auto simp: list_all_iff)
    have "takeWhile (\<lambda>c. c = 61) (rev p @ 61 # rev body) = takeWhile (\<lambda>c. c = 61) (rev p)"
      using x by (rule takeWhile_append1)
    then have "length (takeWhile (\<lambda>c. c = 61) (rev s)) < length p"
      using takeWhile_short[OF np] by (simp add: s p)
    then have "Suc (length body) \<le> length s - length (takeWhile (\<lambda>c. c = 61) (rev s))"
      by (simp add: s p)
    then have k: "length s - length (takeWhile (\<lambda>c. c = 61) (rev s)) =
        length body + Suc (length s - length (takeWhile (\<lambda>c. c = 61) (rev s)) - Suc (length body))"
      by arith
    have tk: "take (length body + Suc j) (body @ 61 # p) = body @ 61 # take j p" for j
      by simp
    have "take (length s - length (takeWhile (\<lambda>c. c = 61) (rev s))) s =
        body @ 61 # take (length s - length (takeWhile (\<lambda>c. c = 61) (rev s)) - Suc (length body)) p"
      using tk[of "length s - length (takeWhile (\<lambda>c. c = 61) (rev s)) - Suc (length body)"] k
      by (metis s p)
    then have "61 \<in> set (take (length s - length (takeWhile (\<lambda>c. c = 61) (rev s))) s)"
      by simp
    then show ?thesis by (auto simp: malformed_padding_def Let_def list_ex_iff)
  next
    assume a: "list_all (\<lambda>c. c = 61) pad \<and> length body mod 8 \<notin> {0, 2, 4, 5, 7}"
    then have n: "length (takeWhile (\<lambda>c. c = 61) (rev s)) = length pad"
      unfolding s using nb by (intro trailing_run) auto
    define r where "r = length body mod 8"
    have "r < 8" unfolding r_def by simp
    moreover from a have "r \<noteq> 0 \<and> r \<noteq> 2 \<and> r \<noteq> 4 \<and> r \<noteq> 5 \<and> r \<noteq> 7"
      unfolding r_def by simp
    ultimately have "r = 1 \<or> r = 3 \<or> r = 6" by arith
    then have "length body mod 8 \<in> {1, 3, 6}" unfolding r_def by simp
    then show ?thesis unfolding malformed_padding_def Let_def n by (simp add: s)
  next
    assume a: "list_all (\<lambda>c. c = 61) pad \<and> pad \<noteq> [] \<and> \<not> (length pad < 8 \<and> length s mod 8 = 0)"
    then have n: "length (takeWhile (\<lambda>c. c = 61) (rev s)) = length pad"
      unfolding s using nb by (intro trailing_run) auto
    from a have "0 < length pad \<and> (8 \<le> length pad \<or> 0 < length s mod 8)" by auto
    then show ?thesis unfolding malformed_padding_def Let_def n by (simp add: s)
  qed
qed

lemma base32_decode_None_iff:
  "(base32_decode s = None) = (malformed_alphabet s \<or> malformed_padding s)"
  using base32_decode_malformed base32_decode_None_malformed by blast



section \<open>The epoch\<close>

text \<open>
  Claim C1 fails at the instant 0.  With the secret \<^verbatim>\<open>JBSWY3DPEHPK3PXP\<close>, SHA1, 6
  digits and period 30, the RFC 6238 derivation for the instant 0 gives \<^verbatim>\<open>282760\<close>.
  When the clock stands at 60000 ms, \<open>getCode\<close> with the timestamp 0 returns
  \<^verbatim>\<open>602287\<close>, the code of the current time (which is also what it returns for the
  timestamp 60000): the timestamp is tested for truthiness and 0 is dropped.
\<close>

theorem getCode_epoch_returns_code_of_now:
  "getCode OTPAuth Map.empty 60000 (fromUri demo_uri) (Some 0) =
     Inr (js ''602287'', (fromUri demo_uri)\<lparr>totp := Some demo_spec\<rparr>)
   \<and> totp_code demo_spec 0 = js ''282760''
   \<and> getCode OTPAuth Map.empty 60000 (fromUri demo_uri) (Some 60000) =
     Inr (js ''602287'', (fromUri demo_uri)\<lparr>totp := Some demo_spec\<rparr>)"
  by (simp add: getCode_def getTOTP_demo OTPAuth_simps instant_or_now_def totp_demo)

text \<open>
  Claim C5 fails at the instant 0.  When the clock stands at 60000 ms, the code that
  \<open>getCode\<close> returns for the timestamp 0 is rejected by \<open>verify\<close> with window 0 at the
  instant 0: \<open>getCode\<close> drops the timestamp 0 and uses the clock, \<open>verify\<close> passes the
  timestamp 0 on to the library.
\<close>

theorem verify_roundtrip_fails_at_epoch:
  "getCode OTPAuth Map.empty 60000 (fromUri demo_uri) (Some 0) =
     Inr (js ''602287'', (fromUri demo_uri)\<lparr>totp := Some demo_spec\<rparr>)
   \<and> verify OTPAuth Map.empty 60000 ((fromUri demo_uri)\<lparr>totp := Some demo_spec\<rparr>)
        (js ''602287'') (Some 0) (Some 0) =
     Inr (\<lparr>ok = False, delta = None, reason = Some ''Invalid or out-of-window token''\<rparr>,
          (fromUri demo_uri)\<lparr>totp := Some demo_spec\<rparr>)"
proof -
  have "window_search demo_spec (js ''602287'') 0 0 = None"
    using js_codes_distinct(2) by (auto simp: window_search_def totp_demo)
  then show ?thesis
    by (simp add: getCode_def verify_def getTOTP_demo getTOTP_cached OTPAuth_simps
        instant_or_now_def totp_demo js_codes_distinct normalizeToken_codes)
qed

section \<open>Refresh and the environment\<close>

lemma cache_setenv: "cache (setenv k v rt) = cache rt"
  by (simp add: setenv_def)

lemma getTOTP_env_demo:
  "k \<noteq> [] \<Longrightarrow> c k = Some demo_uri \<Longrightarrow>
     getTOTP OTPAuth c (fromEnv k) = Inr (demo_spec, (fromEnv k)\<lparr>totp := Some demo_spec\<rparr>)"
  by (simp add: getTOTP_def getUri_def fromEnv_def Env_getString_def Env_get_def cache_lookup_def Let_def
      js_trim_demo_uri demo_uri_nonempty OTPAuth_simps parse_demo_uri)

lemma getTOTP_env_demo1:
  "k \<noteq> [] \<Longrightarrow> c k = Some demo1_uri \<Longrightarrow>
     getTOTP OTPAuth c (fromEnv k) = Inr (demo1_spec, (fromEnv k)\<lparr>totp := Some demo1_spec\<rparr>)"
  by (simp add: getTOTP_def getUri_def fromEnv_def Env_getString_def Env_get_def cache_lookup_def Let_def
      js_trim_demo1_uri demo_uri_nonempty OTPAuth_simps parse_demo1_uri)

text \<open>
  Claim C2 fails for a change of the environment after start-up.  The engine reads the
  key \<^verbatim>\<open>OTP_URI\<close>, bound to the 6-digit example configuration when the program
  starts, and returns \<^verbatim>\<open>602287\<close> for the instant 60000 ms.  The process then binds
  the key to the 1-digit configuration and the engine is refreshed: the next \<open>getCode\<close>
  resolves and parses again, but from the snapshot, and still returns \<^verbatim>\<open>602287\<close>.
  An engine started under the new binding returns \<^verbatim>\<open>7\<close>.
\<close>

theorem refresh_does_not_observe_environment_change:
  "getCode OTPAuth (cache (load_Env [js ''OTP_URI'' \<mapsto> demo_uri])) 0 (fromEnv (js ''OTP_URI''))
       (Some 60000)
     = Inr (js ''602287'', (fromEnv (js ''OTP_URI''))\<lparr>totp := Some demo_spec\<rparr>)
   \<and> process_env (setenv (js ''OTP_URI'') demo1_uri (load_Env [js ''OTP_URI'' \<mapsto> demo_uri]))
       (js ''OTP_URI'') = Some demo1_uri
   \<and> getCode OTPAuth
       (cache (setenv (js ''OTP_URI'') demo1_uri (load_Env [js ''OTP_URI'' \<mapsto> demo_uri]))) 0
       (refresh ((fromEnv (js ''OTP_URI''))\<lparr>totp := Some demo_spec\<rparr>)) (Some 60000)
     = Inr (js ''602287'', (fromEnv (js ''OTP_URI''))\<lparr>totp := Some demo_spec\<rparr>)
   \<and> getCode OTPAuth (cache (load_Env [js ''OTP_URI'' \<mapsto> demo1_uri])) 0
       (fromEnv (js ''OTP_URI'')) (Some 60000)
     = Inr (js ''7'', (fromEnv (js ''OTP_URI''))\<lparr>totp := Some demo1_spec\<rparr>)"
proof -
  define k where "k = js ''OTP_URI''"
  have ne: "k \<noteq> []" by (simp add: k_def js_def)
  have r: "refresh ((fromEnv k)\<lparr>totp := Some demo_spec\<rparr>) = (fromEnv k :: totp_spec otp)"
    by (simp add: refresh_def fromEnv_def)
  have c0: "cache (load_Env [k \<mapsto> demo_uri]) k = Some demo_uri"
    "cache (load_Env [k \<mapsto> demo1_uri]) k = Some demo1_uri"
    by (simp_all add: load_Env_def)
  have "getCode OTPAuth (cache (load_Env [k \<mapsto> demo_uri])) 0 (fromEnv k) (Some 60000)
     = Inr (js ''602287'', (fromEnv k)\<lparr>totp := Some demo_spec\<rparr>)"
    by (simp add: getCode_def getTOTP_env_demo[of k "cache (load_Env [k \<mapsto> demo_uri])", OF ne c0(1)] OTPAuth_simps instant_or_now_def totp_demo)
  moreover have "process_env (setenv k demo1_uri (load_Env [k \<mapsto> demo_uri])) k = Some demo1_uri"
    by (simp add: setenv_def load_Env_def)
  moreover have "getCode OTPAuth (cache (load_Env [k \<mapsto> demo1_uri])) 0 (fromEnv k) (Some 60000)
     = Inr (js ''7'', (fromEnv k)\<lparr>totp := Some demo1_spec\<rparr>)"
    by (simp add: getCode_def getTOTP_env_demo1[of k "cache (load_Env [k \<mapsto> demo1_uri])", OF ne c0(2)] OTPAuth_simps instant_or_now_def totp_demo)
  ultimately show ?thesis
    by (simp add: cache_setenv r flip: k_def)
qed

end
